theory Spec2Isabelle
  imports Complex_Main "HOL-Library.AList"
begin

section \<open>Numbers, points and constants\<close>

text \<open>
  JavaScript numbers are modelled as real numbers: the arithmetic of the curve sampler and
  of the rope simulation is read as exact arithmetic (no rounding, no NaN, no Infinity).
  A two-element coordinate array \<open>[x, y]\<close> is a pair; \<open>a[0]\<close> is \<open>fst a\<close> and
  \<open>a[1]\<close> is \<open>snd a\<close>.

  A rope point is the object \<open>{x, y, oldX, oldY, pinned}\<close>; the fields \<open>x\<close> and
  \<open>y\<close> are called \<open>px\<close> and \<open>py\<close> here.
\<close>

type_synonym vec2 = "real \<times> real"

record rope_point =
  px :: real
  py :: real
  oldX :: real
  oldY :: real
  pinned :: bool

record rope_state =
  points :: "rope_point list"
  segmentLen :: real
  lastA :: vec2
  lastB :: vec2
  lastSeen :: real

definition ROPE_SEGMENTS :: nat where "ROPE_SEGMENTS = 8"
definition ROPE_GRAVITY :: real where "ROPE_GRAVITY = 6 / 10"
definition ROPE_DAMPING :: real where "ROPE_DAMPING = 985 / 1000"
definition ROPE_STIFFNESS :: real where "ROPE_STIFFNESS = 25 / 100"
definition ROPE_ITERATIONS :: nat where "ROPE_ITERATIONS = 4"
definition ROPE_MOMENTUM_TRANSFER :: real where "ROPE_MOMENTUM_TRANSFER = 7 / 10"

definition hypot :: "real \<Rightarrow> real \<Rightarrow> real" where
  "hypot dx dy = sqrt (dx * dx + dy * dy)"

section \<open>Curve sampler\<close>

definition bezierPoint :: "real \<Rightarrow> vec2 \<Rightarrow> vec2 \<Rightarrow> real \<Rightarrow> vec2" where
  "bezierPoint t a b cp =
     (let mt = 1 - t;
          mt2 = mt * mt;
          mt3 = mt2 * mt;
          t2 = t * t;
          t3 = t2 * t;
          cpA = fst a + cp;
          cpB = fst b - cp
      in (mt3 * fst a + 3 * mt2 * t * cpA + 3 * mt * t2 * cpB + t3 * fst b,
          mt3 * snd a + 3 * mt2 * t * snd a + 3 * mt * t2 * snd b + t3 * snd b))"

text \<open>
  \<open>getSmartPoint\<close>: \<open>ropePoints\<close> is \<open>None\<close> for \<open>null\<close>. The segment index
  \<open>i\<close> is only clamped from above; for a negative \<open>i\<close> the read \<open>ropePoints[i]\<close>
  is \<open>undefined\<close> and the field access throws, which is the result \<open>None\<close>.
\<close>

definition getSmartPoint ::
  "real \<Rightarrow> vec2 \<Rightarrow> vec2 \<Rightarrow> real \<Rightarrow> rope_point list option \<Rightarrow> vec2 option" where
  "getSmartPoint t a b cp ropePoints =
     (case ropePoints of
        None \<Rightarrow> Some (bezierPoint t a b cp)
      | Some ps \<Rightarrow>
          if length ps \<ge> 2 then
            (let segmentLen = 1 / (real (length ps) - 1);
                 segment = \<lfloor>t * (real (length ps) - 1)\<rfloor>;
                 localT = (t - real_of_int segment * segmentLen) / segmentLen;
                 i = min segment (int (length ps) - 2)
             in if i < 0 then None
                else (let p1 = ps ! nat i;
                          p2 = ps ! (nat i + 1)
                      in Some (px p1 + (px p2 - px p1) * localT,
                               py p1 + (py p2 - py p1) * localT)))
          else Some (bezierPoint t a b cp))"

section \<open>Rope simulation\<close>

definition createRopePoint :: "vec2 \<Rightarrow> vec2 \<Rightarrow> real \<Rightarrow> nat \<Rightarrow> nat \<Rightarrow> rope_point" where
  "createRopePoint a b len numPoints i =
     (let t = real i / (real numPoints - 1);
          x = fst a + (fst b - fst a) * t;
          sagAmount = min (len * (15 / 100)) 60;
          sag = sagAmount * 4 * t * (1 - t);
          y = snd a + (snd b - snd a) * t + sag
      in \<lparr>px = x, py = y, oldX = x, oldY = y,
          pinned = (i = 0 \<or> i = numPoints - 1)\<rparr>)"

text \<open>\<open>now\<close> is the clock reading taken inside \<open>createRopeState\<close>.\<close>

definition createRopeState :: "vec2 \<Rightarrow> vec2 \<Rightarrow> real \<Rightarrow> real \<Rightarrow> rope_state" where
  "createRopeState a b len now =
     (let numPoints = ROPE_SEGMENTS + 1
      in \<lparr>points = map (createRopePoint a b len numPoints) [0..<numPoints],
          segmentLen = len / (real numPoints - 1),
          lastA = a,
          lastB = b,
          lastSeen = now\<rparr>)"

text \<open>Momentum transfer from a moved start point: the loop body at index \<open>i\<close>.\<close>

definition momentumStart :: "real \<Rightarrow> real \<Rightarrow> nat \<Rightarrow> rope_point list \<Rightarrow> nat \<Rightarrow> rope_point list" where
  "momentumStart dxStart dyStart halfLen ps i =
     (let influence = (1 - real i / real halfLen)\<^sup>2 * ROPE_MOMENTUM_TRANSFER;
          p = ps ! i
      in ps[i := p\<lparr>oldX := oldX p - dxStart * influence,
                    oldY := oldY p - dyStart * influence\<rparr>])"

definition momentumEnd :: "real \<Rightarrow> real \<Rightarrow> nat \<Rightarrow> rope_point list \<Rightarrow> nat \<Rightarrow> rope_point list" where
  "momentumEnd dxEnd dyEnd halfLen ps i =
     (let distFromEnd = length ps - 1 - i;
          influence = (1 - real distFromEnd / real halfLen)\<^sup>2 * ROPE_MOMENTUM_TRANSFER;
          p = ps ! i
      in ps[i := p\<lparr>oldX := oldX p - dxEnd * influence,
                    oldY := oldY p - dyEnd * influence\<rparr>])"

definition pinPoint :: "vec2 \<Rightarrow> rope_point \<Rightarrow> rope_point" where
  "pinPoint v p = p\<lparr>px := fst v, py := snd v, oldX := fst v, oldY := snd v\<rparr>"

definition verletPoint :: "rope_point \<Rightarrow> rope_point" where
  "verletPoint p =
     (let vx = (px p - oldX p) * ROPE_DAMPING;
          vy = (py p - oldY p) * ROPE_DAMPING
      in p\<lparr>oldX := px p, oldY := py p,
            px := px p + vx, py := py p + (vy + ROPE_GRAVITY)\<rparr>)"

definition verletStep :: "rope_point list \<Rightarrow> nat \<Rightarrow> rope_point list" where
  "verletStep ps i = ps[i := verletPoint (ps ! i)]"

text \<open>One distance constraint, between the points \<open>i\<close> and \<open>i + 1\<close>.\<close>

definition constrainPair :: "real \<Rightarrow> rope_point list \<Rightarrow> nat \<Rightarrow> rope_point list" where
  "constrainPair targetLen ps i =
     (let p1 = ps ! i;
          p2 = ps ! (i + 1);
          dx = px p2 - px p1;
          dy = py p2 - py p1;
          dist = sqrt (dx * dx + dy * dy)
      in if dist < 1 / 1000 then ps
         else
           (let diff = (targetLen - dist) / dist;
                offsetX = dx * diff * (1 / 2);
                offsetY = dy * diff * (1 / 2);
                p1' = (if \<not> pinned p1
                       then p1\<lparr>px := px p1 - offsetX * ROPE_STIFFNESS,
                               py := py p1 - offsetY * ROPE_STIFFNESS\<rparr>
                       else p1);
                p2' = (if \<not> pinned p2
                       then p2\<lparr>px := px p2 + offsetX * ROPE_STIFFNESS,
                               py := py p2 + offsetY * ROPE_STIFFNESS\<rparr>
                       else p2)
            in ps[i := p1', i + 1 := p2']))"

definition relaxPass :: "real \<Rightarrow> rope_point list \<Rightarrow> rope_point list" where
  "relaxPass targetLen ps = foldl (constrainPair targetLen) ps [0..<length ps - 1]"

text \<open>
  The phases of \<open>updateRopePhysics\<close>, in the order of the source: momentum transfer
  (the two loops over the points near a moved endpoint), endpoint pinning, Verlet
  integration of the interior points, and \<open>ROPE_ITERATIONS\<close> relaxation passes.
\<close>

definition transferMomentum :: "rope_state \<Rightarrow> vec2 \<Rightarrow> vec2 \<Rightarrow> rope_point list" where
  "transferMomentum state a b =
     (let ps0 = points state;
          n = length ps0;
          dxStart = fst a - fst (lastA state);
          dyStart = snd a - snd (lastA state);
          dxEnd = fst b - fst (lastB state);
          dyEnd = snd b - snd (lastB state);
          startMoved = hypot dxStart dyStart;
          endMoved = hypot dxEnd dyEnd;
          halfLen = n div 2;
          ps1 = (if startMoved > 1 / 10
                 then foldl (momentumStart dxStart dyStart halfLen) ps0 [1..<halfLen]
                 else ps0)
      in if endMoved > 1 / 10
         then foldl (momentumEnd dxEnd dyEnd halfLen) ps1 (rev [n - halfLen..<n - 1])
         else ps1)"

definition pinEndpoints :: "vec2 \<Rightarrow> vec2 \<Rightarrow> rope_point list \<Rightarrow> rope_point list" where
  "pinEndpoints a b ps =
     (let ps1 = ps[0 := pinPoint a (ps ! 0)]
      in ps1[length ps1 - 1 := pinPoint b (ps1 ! (length ps1 - 1))])"

definition integrate :: "rope_point list \<Rightarrow> rope_point list" where
  "integrate ps = foldl verletStep ps [1..<length ps - 1]"

definition relax :: "real \<Rightarrow> rope_point list \<Rightarrow> rope_point list" where
  "relax len ps =
     (let targetLen = len / (real (length ps) - 1)
      in ((relaxPass targetLen) ^^ ROPE_ITERATIONS) ps)"

text \<open>
  \<open>updateRopePhysics\<close> mutates the state it is given and returns its points; the model
  returns the mutated state. On an empty point array the two momentum loops do not run and
  the write \<open>points[0].x = a[0]\<close> throws before anything was mutated: the result
  \<open>None\<close>.
\<close>

definition updateRopePhysics :: "rope_state \<Rightarrow> vec2 \<Rightarrow> vec2 \<Rightarrow> real \<Rightarrow> rope_state option" where
  "updateRopePhysics state a b len =
     (if points state = [] then None
      else Some (state\<lparr>points := relax len (integrate (pinEndpoints a b (transferMomentum state a b))),
                       lastA := a, lastB := b\<rparr>))"

section \<open>Rope simulation store\<close>

text \<open>
  A link is \<open>None\<close> for \<open>null\<close>/\<open>undefined\<close>; \<open>link_id\<close> is \<open>None\<close> when
  \<open>link.id\<close> is \<open>null\<close> or absent. The key strings \<open>"link_" + id\<close> and
  \<open>"pos_" + .. + "_" + ..\<close> are the constructors of \<open>rope_key\<close>.
\<close>

record link =
  link_id :: "int option"
  origin_id :: int
  target_id :: int

datatype rope_key = LinkKey int | PosKey int int int int

definition js_round :: "real \<Rightarrow> int" where
  "js_round v = \<lfloor>v + 1 / 2\<rfloor>"

definition getRopeKey :: "link option \<Rightarrow> vec2 \<Rightarrow> vec2 \<Rightarrow> rope_key" where
  "getRopeKey lnk a b =
     (let pos = PosKey (js_round (fst a / 10)) (js_round (snd a / 10))
                       (js_round (fst b / 10)) (js_round (snd b / 10))
      in case lnk of
           None \<Rightarrow> pos
         | Some l \<Rightarrow> (case link_id l of None \<Rightarrow> pos | Some i \<Rightarrow> LinkKey i))"

text \<open>
  The module-level variables. \<open>ropePhysics\<close> is the \<open>Map\<close> from keys to rope states, an
  association list in insertion order (\<open>AList.update\<close> is \<open>Map.set\<close>); its \<open>size\<close> is
  the length of the list, the keys of a \<open>Map\<close> being distinct.
\<close>

record globals =
  currentEffect :: "nat option"
  animationMode :: string
  gravityEnabled :: bool
  ropePhysics :: "(rope_key \<times> rope_state) list"
  lastRopeCleanup :: real
  gifEnabled :: bool
  gifUrl :: string

datatype rope_result = RopeThrew | RopeNull | RopePoints "rope_point list"

definition evictStale :: "real \<Rightarrow> (rope_key \<times> rope_state) list \<Rightarrow> (rope_key \<times> rope_state) list" where
  "evictStale now store = filter (\<lambda>(ropeKey, v). \<not> (now - lastSeen v > 8000)) store"

text \<open>
  \<open>getRopePoints\<close> reads the clock up to three times: \<open>tCreate\<close> inside the
  \<open>createRopeState\<close> of a key not seen before, \<open>now\<close> in its own body, and
  \<open>tRecreate\<close> inside the \<open>createRopeState\<close> of the resize branch. The result is the
  returned value and the module state after the call.
\<close>

definition getRopePoints ::
  "globals \<Rightarrow> link option \<Rightarrow> vec2 \<Rightarrow> vec2 \<Rightarrow> real \<Rightarrow> real \<Rightarrow> real \<Rightarrow> real
     \<Rightarrow> rope_result \<times> globals" where
  "getRopePoints g lnk a b len tCreate now tRecreate =
     (if \<not> gravityEnabled g then (RopeNull, g)
      else
        (let key = getRopeKey lnk a b;
             store1 = (if map_of (ropePhysics g) key = None
                       then AList.update key (createRopeState a b len tCreate) (ropePhysics g)
                       else ropePhysics g)
         in case map_of store1 key of
              None \<Rightarrow> (RopeThrew, g\<lparr>ropePhysics := store1\<rparr>)
            | Some st0 \<Rightarrow>
                (let state = st0\<lparr>lastSeen := now\<rparr>;
                     store2 = AList.update key state store1;
                     sweep = (length store2 > 60 \<and> now - lastRopeCleanup g > 3000);
                     store3 = (if sweep then evictStale now store2 else store2);
                     cleanup = (if sweep then now else lastRopeCleanup g);
                     expectedLen = len / real ROPE_SEGMENTS
                 in if \<bar>segmentLen state - expectedLen\<bar> > 20 then
                      (let fresh = createRopeState a b len tRecreate
                       in (RopePoints (points fresh),
                           g\<lparr>ropePhysics := AList.update key fresh store3,
                             lastRopeCleanup := cleanup\<rparr>))
                    else
                      (case updateRopePhysics state a b len of
                         None \<Rightarrow> (RopeThrew, g\<lparr>ropePhysics := store3, lastRopeCleanup := cleanup\<rparr>)
                       | Some state' \<Rightarrow>
                           (RopePoints (points state'),
                            g\<lparr>ropePhysics := AList.map_entry key (\<lambda>_. state') store3,
                              lastRopeCleanup := cleanup\<rparr>)))))"

text \<open>
  The click handler of the gravity toggle, restricted to the module variables of the
  model (it also rebuilds the sidebar, starts or stops the animation loop and marks the
  canvas dirty).
\<close>

definition toggleGravity :: "globals \<Rightarrow> globals" where
  "toggleGravity g =
     (let g1 = g\<lparr>gravityEnabled := \<not> gravityEnabled g\<rparr>
      in if \<not> gravityEnabled g1 then g1\<lparr>ropePhysics := []\<rparr> else g1)"

text \<open>The structure of a rope state: nine points, exactly the two terminal ones pinned.\<close>

definition rope_wf :: "rope_state \<Rightarrow> bool" where
  "rope_wf s \<longleftrightarrow>
     map pinned (points s) = map (\<lambda>i. i = 0 \<or> i = ROPE_SEGMENTS) [0..<ROPE_SEGMENTS + 1]"

definition store_wf :: "(rope_key \<times> rope_state) list \<Rightarrow> bool" where
  "store_wf store \<longleftrightarrow> distinct (map fst store) \<and> list_all rope_wf (map snd store)"

text \<open>A sequence of integration steps, each with its own endpoints and length.\<close>

fun stepSeq :: "rope_state \<Rightarrow> (vec2 \<times> vec2 \<times> real) list \<Rightarrow> rope_state option" where
  "stepSeq s [] = Some s"
| "stepSeq s ((a, b, len) # rest) =
     (case updateRopePhysics s a b len of None \<Rightarrow> None | Some s' \<Rightarrow> stepSeq s' rest)"

section \<open>Render dispatch\<close>

text \<open>
  The host's selection \<open>app.canvas.selected_nodes\<close>: \<open>None\<close> when \<open>app\<close>, its canvas
  or the selection object is missing, else the node ids that are the object's keys.
\<close>

record host =
  selected_nodes :: "int list option"

definition getSelectedNodeIds :: "host \<Rightarrow> int set" where
  "getSelectedNodeIds h = (case selected_nodes h of None \<Rightarrow> {} | Some ks \<Rightarrow> set ks)"

definition shouldAnimateLink :: "globals \<Rightarrow> host \<Rightarrow> link option \<Rightarrow> bool" where
  "shouldAnimateLink g h lnk =
     (if animationMode g = ''full'' then True
      else if animationMode g = ''static'' then True
      else if animationMode g = ''selected'' then
        (case lnk of
           None \<Rightarrow> True
         | Some l \<Rightarrow>
             (let selectedIds = getSelectedNodeIds h
              in if selectedIds = {} then False
                 else origin_id l \<in> selectedIds \<or> target_id l \<in> selectedIds))
      else False)"

text \<open>
  The endpoints as the dispatch receives them: any JavaScript value. Indexing
  \<open>null\<close> or \<open>undefined\<close> throws; indexing any other value does not.
\<close>

datatype jsval = JUndefined | JNull | JBool bool | JNum real | JStr string
  | JArr "jsval list" | JObj

definition nullish :: "jsval \<Rightarrow> bool" where
  "nullish v \<longleftrightarrow> v = JUndefined \<or> v = JNull"

definition isArray :: "jsval \<Rightarrow> bool" where
  "isArray v = (case v of JArr _ \<Rightarrow> True | _ \<Rightarrow> False)"

text \<open>
  What a dispatch does is the list of the calls it makes, in order: the GIF overlay
  update, the draw routine of the selected effect, the rope drawing, the host's original
  routine. The GIF update and the effect draw run inside \<open>try\<close>/\<open>catch\<close>.
\<close>

datatype draw_action = GifUpdate | EffectDraw nat | RopeDraw | OriginalRenderLink

datatype dispatch_result = DispatchThrew | Returned "draw_action list"

text \<open>
  \<open>patchedRenderLink\<close>. \<open>ctx\<close> is the truthiness of the drawing surface. The call of
  \<open>getRopePoints\<close> returns \<open>null\<close> when gravity is disabled; \<open>ropeWhenEnabled\<close> is its
  outcome when gravity is enabled (on endpoints that are not coordinate arrays that
  outcome is outside the real-number model of the store, so it is a parameter).
\<close>

definition patchedRenderLink ::
  "globals \<Rightarrow> host \<Rightarrow> bool \<Rightarrow> jsval \<Rightarrow> jsval \<Rightarrow> link option \<Rightarrow> rope_result
     \<Rightarrow> dispatch_result" where
  "patchedRenderLink g h ctx a b lnk ropeWhenEnabled =
     (if nullish b \<or> nullish a then DispatchThrew
      else
        (case (if \<not> gravityEnabled g then RopeNull else ropeWhenEnabled) of
           RopeThrew \<Rightarrow> DispatchThrew
         | ropePoints \<Rightarrow>
             (let gif = (if gifEnabled g \<and> gifUrl g \<noteq> [] \<and> shouldAnimateLink g h lnk
                         then [GifUpdate] else []);
                  eff = (case currentEffect g of
                           None \<Rightarrow> []
                         | Some e \<Rightarrow>
                             if ctx \<and> isArray a \<and> isArray b
                             then (if shouldAnimateLink g h lnk then [EffectDraw e] else [])
                             else []);
                  rope = (if gravityEnabled g \<and> ropePoints \<noteq> RopeNull \<and> ctx
                          then [RopeDraw] else [])
              in if rope \<noteq> [] \<and> currentEffect g = None then Returned (gif @ eff @ rope)
                 else if currentEffect g = None \<and> \<not> gravityEnabled g
                 then Returned (gif @ eff @ rope @ [OriginalRenderLink])
                 else Returned (gif @ eff @ rope))))"

section \<open>The initial state and the reachable states\<close>

text \<open>
  The state that the first lines of the lookup in \<open>getRopePoints\<close> bind to \<open>state\<close>:
  the stored entry of the key, or the state just created for a key not seen before.
\<close>

definition priorState :: "globals \<Rightarrow> rope_key \<Rightarrow> rope_state \<Rightarrow> rope_state" where
  "priorState g key fresh = (case map_of (ropePhysics g) key of None \<Rightarrow> fresh | Some s \<Rightarrow> s)"

text \<open>
  The module variables as the file initialises them, and the states the module can
  reach: by a request for rope points, by a click on the gravity toggle, or by the
  sidebar handlers that choose the effect, the animation mode and the GIF settings (no
  other code writes \<open>ropePhysics\<close>, \<open>lastRopeCleanup\<close> or \<open>gravityEnabled\<close>).
\<close>

definition initialGlobals :: globals where
  "initialGlobals =
     \<lparr>currentEffect = None, animationMode = ''full'', gravityEnabled = False,
      ropePhysics = [], lastRopeCleanup = 0, gifEnabled = False, gifUrl = []\<rparr>"

inductive reachable :: "globals \<Rightarrow> bool" where
  init: "reachable initialGlobals"
| request: "reachable g \<Longrightarrow> reachable (snd (getRopePoints g lnk a b len tCreate now tRecreate))"
| toggle: "reachable g \<Longrightarrow> reachable (toggleGravity g)"
| config: "reachable g \<Longrightarrow>
     reachable (g\<lparr>currentEffect := e, animationMode := m, gifEnabled := ge, gifUrl := u\<rparr>)"

section \<open>Example data\<close>

text \<open>
  A link with an identity; a store that holds link 1 at rest between \<open>(0, 0)\<close> and
  \<open>(len0, 0)\<close>; a store of 61 links last seen at time 1000.
\<close>

definition exampleLink :: "int \<Rightarrow> link" where
  "exampleLink i = \<lparr>link_id = Some i, origin_id = 5, target_id = 9\<rparr>"

definition exampleGlobals :: "real \<Rightarrow> globals" where
  "exampleGlobals len0 =
     initialGlobals\<lparr>gravityEnabled := True,
       ropePhysics := [(LinkKey 1, createRopeState (0, 0) (len0, 0) len0 0)]\<rparr>"

definition crowdedGlobals :: globals where
  "crowdedGlobals =
     initialGlobals\<lparr>gravityEnabled := True,
       ropePhysics := map (\<lambda>i. (LinkKey (int i), createRopeState (0, 0) (100, 0) 100 1000))
                          [0..<61]\<rparr>"

text \<open>
  The rope created between \<open>(0, 0)\<close> and \<open>(100, 0)\<close> after pinning and Verlet
  integration, before the relaxation passes.
\<close>

definition verletExample :: "rope_point list" where
  "verletExample =
     [\<lparr>px = 0, py = 0, oldX = 0, oldY = 0, pinned = True\<rparr>,
      \<lparr>px = 25 / 2, py = 573 / 80, oldX = 25 / 2, oldY = 105 / 16, pinned = False\<rparr>,
      \<lparr>px = 25, py = 237 / 20, oldX = 25, oldY = 45 / 4, pinned = False\<rparr>,
      \<lparr>px = 75 / 2, py = 1173 / 80, oldX = 75 / 2, oldY = 225 / 16, pinned = False\<rparr>,
      \<lparr>px = 50, py = 78 / 5, oldX = 50, oldY = 15, pinned = False\<rparr>,
      \<lparr>px = 125 / 2, py = 1173 / 80, oldX = 125 / 2, oldY = 225 / 16, pinned = False\<rparr>,
      \<lparr>px = 75, py = 237 / 20, oldX = 75, oldY = 45 / 4, pinned = False\<rparr>,
      \<lparr>px = 175 / 2, py = 573 / 80, oldX = 175 / 2, oldY = 105 / 16, pinned = False\<rparr>,
      \<lparr>px = 100, py = 0, oldX = 100, oldY = 0, pinned = True\<rparr>]"

section \<open>Bounds on the relaxation\<close>

text \<open>
  The length of segment \<open>i\<close>, and a point moved by an offset unless it is pinned: one
  constraint moves its two points by opposite offsets along the segment.
\<close>

definition segLen :: "rope_point list \<Rightarrow> nat \<Rightarrow> real" where
  "segLen ps i = hypot (px (ps ! Suc i) - px (ps ! i)) (py (ps ! Suc i) - py (ps ! i))"

definition shiftPoint :: "real \<Rightarrow> real \<Rightarrow> rope_point \<Rightarrow> rope_point" where
  "shiftPoint ux uy p = (if pinned p then p else p\<lparr>px := px p + ux, py := py p + uy\<rparr>)"

text \<open>
  Bounds \<open>E\<close> on the deviation of each of the eight segment lengths from the rest
  length. Relaxing segment \<open>i\<close> shrinks its own deviation to \<open>3/4\<close> (to \<open>7/8\<close> at a pinned
  end) and moves its free points by at most \<open>E ! i / 8\<close>, which is added to the bounds of
  the neighbouring segments. \<open>devOK\<close> checks that no relaxed segment can be shorter than
  the threshold below which the source skips it; \<open>devLoss\<close> adds up how far the relaxed
  segments 3 and 4 can move the midpoint.
\<close>

definition devE :: "real list \<Rightarrow> nat \<Rightarrow> real list" where
  "devE E i =
     (let m = E ! i / 8;
          E1 = E[i := (if i = 0 \<or> i = 7 then 7 / 8 else 3 / 4) * E ! i];
          E2 = (if 0 < i then E1[i - 1 := E1 ! (i - 1) + m] else E1)
      in if i < 7 then E2[Suc i := E2 ! Suc i + m] else E2)"

fun devOK :: "real \<Rightarrow> real list \<Rightarrow> nat list \<Rightarrow> bool" where
  "devOK L E [] = True"
| "devOK L E (i # is) = (i < 8 \<and> E ! i < L - 1 / 1000 \<and> devOK L (devE E i) is)"

fun devLoss :: "real list \<Rightarrow> nat list \<Rightarrow> real" where
  "devLoss E [] = 0"
| "devLoss E (i # is) = (if i = 3 \<or> i = 4 then E ! i / 8 else 0) + devLoss (devE E i) is"

definition initialDeviation :: "real list" where
  "initialDeviation = [1907/1000, 851/1000, 313/1000, 36/1000, 36/1000, 313/1000, 851/1000, 1907/1000]"

definition fourPasses :: "nat list" where
  "fourPasses = [0,1,2,3,4,5,6,7, 0,1,2,3,4,5,6,7, 0,1,2,3,4,5,6,7, 0,1,2,3,4,5,6,7]"

section \<open>Curve sampler: boundary values\<close>

lemma bezierPoint_at_0: "bezierPoint 0 a b cp = a"
  by (simp add: bezierPoint_def)

lemma bezierPoint_at_1: "bezierPoint 1 a b cp = b"
  by (simp add: bezierPoint_def)

lemma getSmartPoint_bezier_mode:
  "getSmartPoint 0 a b cp None = Some a"
  "getSmartPoint 1 a b cp None = Some b"
  "length ps < 2 \<Longrightarrow> getSmartPoint 0 a b cp (Some ps) = Some a"
  "length ps < 2 \<Longrightarrow> getSmartPoint 1 a b cp (Some ps) = Some b"
  by (simp_all add: getSmartPoint_def bezierPoint_at_0 bezierPoint_at_1)

lemma getSmartPoint_rope_at_0:
  "length ps \<ge> 2 \<Longrightarrow> getSmartPoint 0 a b cp (Some ps) = Some (px (ps ! 0), py (ps ! 0))"
  by (simp add: getSmartPoint_def Let_def)

lemma getSmartPoint_rope_at_1:
  assumes "length ps \<ge> 2"
  shows "getSmartPoint 1 a b cp (Some ps)
           = Some (px (ps ! (length ps - 2)), py (ps ! (length ps - 2)))"
proof -
  have n: "real (length ps) - 1 \<noteq> 0" using assms by simp
  have fl: "\<lfloor>real (length ps) - 1\<rfloor> = int (length ps) - 1"
    by (metis floor_of_int of_int_1 of_int_diff of_int_of_nat_eq)
  have m: "min (int (length ps) - 1) (int (length ps) - 2) = int (length ps) - 2" by simp
  have nn: "nat (int (length ps) - 2) = length ps - 2" by simp
  show ?thesis
    using assms n by (simp add: getSmartPoint_def Let_def fl m nn)
qed

text \<open>
  C1 (the sampler returns \<open>a\<close> at \<open>t = 0\<close> and \<open>b\<close> at \<open>t = 1\<close>, in both modes).
  On the rope \<open>(0,0), (50,10), (100,0)\<close>, whose first point is \<open>a\<close> and whose last point
  is \<open>b\<close>, the sampler at \<open>t = 1\<close> returns the point before the last, \<open>(50, 10)\<close>, and
  not \<open>b = (100, 0)\<close>: the segment index is clamped to the last segment, the local
  fraction is computed from the index before clamping and is \<open>0\<close>.
\<close>

theorem getSmartPoint_rope_end_is_penultimate:
  "getSmartPoint 1 (0, 0) (100, 0) 40
     (Some [\<lparr>px = 0, py = 0, oldX = 0, oldY = 0, pinned = True\<rparr>,
            \<lparr>px = 50, py = 10, oldX = 50, oldY = 10, pinned = False\<rparr>,
            \<lparr>px = 100, py = 0, oldX = 100, oldY = 0, pinned = True\<rparr>])
   = Some (50, 10)
   \<and> getSmartPoint 1 (0, 0) (100, 0) 40
     (Some [\<lparr>px = 0, py = 0, oldX = 0, oldY = 0, pinned = True\<rparr>,
            \<lparr>px = 50, py = 10, oldX = 50, oldY = 10, pinned = False\<rparr>,
            \<lparr>px = 100, py = 0, oldX = 100, oldY = 0, pinned = True\<rparr>])
   \<noteq> Some (100, 0)"
  by (simp add: getSmartPoint_def Let_def)

section \<open>Structure preserved by an integration step\<close>

lemma map_pinned_update:
  "pinned q = pinned (ps ! i) \<Longrightarrow> map pinned (ps[i := q]) = map pinned ps"
proof (cases "i < length ps")
  case True
  assume "pinned q = pinned (ps ! i)"
  with True have "map pinned (ps[i := q]) = (map pinned ps)[i := map pinned ps ! i]"
    by (simp add: map_update)
  then show ?thesis by (simp only: list_update_id)
next
  case False
  then have "ps[i := q] = ps" by (simp add: not_less list_update_beyond)
  then show ?thesis by simp
qed

lemma map_pinned_momentumStart:
  "map pinned (momentumStart dx dy h ps i) = map pinned ps"
  by (simp add: momentumStart_def Let_def map_pinned_update)

lemma map_pinned_momentumEnd:
  "map pinned (momentumEnd dx dy h ps i) = map pinned ps"
  by (simp add: momentumEnd_def Let_def map_pinned_update)

lemma map_pinned_verletStep: "map pinned (verletStep ps i) = map pinned ps"
  by (simp add: verletStep_def verletPoint_def Let_def map_pinned_update)

lemma map_pinned_pinPoint: "map pinned (ps[i := pinPoint v (ps ! i)]) = map pinned ps"
  by (simp add: pinPoint_def map_pinned_update)

lemma map_pinned_constrainPair: "map pinned (constrainPair L ps i) = map pinned ps"
  by (simp add: constrainPair_def Let_def map_pinned_update)

lemma map_pinned_foldl:
  assumes "\<And>ps i. map pinned (f ps i) = map pinned ps"
  shows "map pinned (foldl f ps is) = map pinned ps"
  by (induction "is" arbitrary: ps) (simp_all add: assms)

lemma map_pinned_relaxPass: "map pinned (relaxPass L ps) = map pinned ps"
  unfolding relaxPass_def by (rule map_pinned_foldl) (rule map_pinned_constrainPair)

lemma map_pinned_relax_iter: "map pinned ((relaxPass L ^^ k) ps) = map pinned ps"
  by (induction k) (simp_all add: map_pinned_relaxPass)

lemma map_pinned_transferMomentum: "map pinned (transferMomentum s a b) = map pinned (points s)"
  by (simp add: transferMomentum_def Let_def map_pinned_foldl map_pinned_momentumStart
      map_pinned_momentumEnd)

lemma map_pinned_pinEndpoints: "map pinned (pinEndpoints a b ps) = map pinned ps"
  by (simp add: pinEndpoints_def Let_def map_pinned_pinPoint)

lemma map_pinned_integrate: "map pinned (integrate ps) = map pinned ps"
  by (simp add: integrate_def map_pinned_foldl map_pinned_verletStep)

lemma map_pinned_relax: "map pinned (relax len ps) = map pinned ps"
  by (simp add: relax_def Let_def map_pinned_relax_iter)

lemma updateRopePhysics_None: "updateRopePhysics s a b len = None \<longleftrightarrow> points s = []"
  by (simp add: updateRopePhysics_def)

lemma updateRopePhysics_pinned:
  assumes "updateRopePhysics s a b len = Some s'"
  shows "map pinned (points s') = map pinned (points s)"
  using assms
  by (auto simp add: updateRopePhysics_def map_pinned_relax map_pinned_integrate
      map_pinned_pinEndpoints map_pinned_transferMomentum split: if_splits)

lemma updateRopePhysics_fields:
  assumes "updateRopePhysics s a b len = Some s'"
  shows "segmentLen s' = segmentLen s" "lastSeen s' = lastSeen s" "lastA s' = a" "lastB s' = b"
  using assms by (auto simp add: updateRopePhysics_def split: if_splits)

lemma length_pinned_eq: "map pinned ps = map pinned qs \<Longrightarrow> length ps = length qs"
  by (rule map_eq_imp_length_eq)

lemma length_transferMomentum: "length (transferMomentum s a b) = length (points s)"
  using map_pinned_transferMomentum[of s a b] by (rule length_pinned_eq)

lemma length_pinEndpoints: "length (pinEndpoints a b ps) = length ps"
  using map_pinned_pinEndpoints[of a b ps] by (rule length_pinned_eq)

lemma length_integrate: "length (integrate ps) = length ps"
  using map_pinned_integrate[of ps] by (rule length_pinned_eq)

lemma length_relax: "length (relax len ps) = length ps"
  using map_pinned_relax[of len ps] by (rule length_pinned_eq)

lemma length_relaxPass: "length (relaxPass L ps) = length ps"
  using map_pinned_relaxPass[of L ps] by (rule length_pinned_eq)

text \<open>Pinned points are not moved by the constraints; the end points not by the integration.\<close>

lemma nth_update_unchanged:
  "i \<noteq> j \<or> q = ps ! j \<Longrightarrow> ps[i := q] ! j = ps ! j"
  by (cases "i < length ps") (auto simp add: nth_list_update list_update_beyond not_less)

lemma nth_update2_unchanged:
  assumes "j = i \<longrightarrow> u = ps ! i" and "j = Suc i \<longrightarrow> v = ps ! Suc i"
  shows "ps[i := u, Suc i := v] ! j = ps ! j"
proof -
  have "ps[i := u, Suc i := v] ! j = ps[i := u] ! j"
    using assms(2) by (intro nth_update_unchanged) (auto simp add: nth_update_unchanged)
  also have "\<dots> = ps ! j"
    using assms(1) by (intro nth_update_unchanged) auto
  finally show ?thesis .
qed

lemma constrainPair_pinned_nth:
  assumes "pinned (ps ! j)"
  shows "constrainPair L ps i ! j = ps ! j"
  using assms by (auto simp add: constrainPair_def Let_def intro!: nth_update2_unchanged nth_update_unchanged)

lemma foldl_constrainPair_pinned_nth:
  "pinned (ps ! j) \<Longrightarrow> foldl (constrainPair L) ps is ! j = ps ! j"
  by (induction "is" arbitrary: ps) (simp_all add: constrainPair_pinned_nth)

lemma relaxPass_pinned_nth: "pinned (ps ! j) \<Longrightarrow> relaxPass L ps ! j = ps ! j"
  by (simp add: relaxPass_def foldl_constrainPair_pinned_nth)

lemma relax_iter_pinned_nth: "pinned (ps ! j) \<Longrightarrow> (relaxPass L ^^ k) ps ! j = ps ! j"
  by (induction k) (simp_all add: relaxPass_pinned_nth)

lemma relax_pinned_nth: "pinned (ps ! j) \<Longrightarrow> relax len ps ! j = ps ! j"
  by (simp add: relax_def Let_def relax_iter_pinned_nth)

lemma foldl_verletStep_nth:
  "j \<notin> set is \<Longrightarrow> foldl verletStep ps is ! j = ps ! j"
  by (induction "is" arbitrary: ps) (auto simp add: verletStep_def)

lemma integrate_ends:
  "integrate ps ! 0 = ps ! 0" "integrate ps ! (length ps - 1) = ps ! (length ps - 1)"
  by (simp_all add: integrate_def foldl_verletStep_nth)

lemma pinEndpoints_ends:
  assumes "2 \<le> length ps"
  shows "pinEndpoints a b ps ! 0 = pinPoint a (ps ! 0)"
    and "pinEndpoints a b ps ! (length ps - 1) = pinPoint b (ps ! (length ps - 1))"
proof -
  have pos: "0 < length ps" "length ps - 1 < length ps" "length ps - 1 \<noteq> 0"
    using assms by arith+
  show "pinEndpoints a b ps ! 0 = pinPoint a (ps ! 0)"
    using pos by (simp add: pinEndpoints_def Let_def nth_list_update)
  show "pinEndpoints a b ps ! (length ps - 1) = pinPoint b (ps ! (length ps - 1))"
    using pos by (simp add: pinEndpoints_def Let_def nth_list_update)
qed

lemma pinPoint_record:
  "pinPoint v p = \<lparr>px = fst v, py = snd v, oldX = fst v, oldY = snd v, pinned = pinned p\<rparr>"
  by (cases p) (simp add: pinPoint_def)

lemma pinned_nth_cong:
  "map pinned ps = map pinned qs \<Longrightarrow> j < length qs \<Longrightarrow> pinned (ps ! j) = pinned (qs ! j)"
  by (metis length_map nth_map)

lemma updateRopePhysics_endpoints:
  assumes len2: "2 \<le> length (points s)"
    and p0: "pinned (points s ! 0)"
    and pl: "pinned (points s ! (length (points s) - 1))"
  shows "\<exists>s'. updateRopePhysics s a b len = Some s'
           \<and> map pinned (points s') = map pinned (points s)
           \<and> points s' ! 0 = \<lparr>px = fst a, py = snd a, oldX = fst a, oldY = snd a, pinned = True\<rparr>
           \<and> points s' ! (length (points s) - 1)
               = \<lparr>px = fst b, py = snd b, oldX = fst b, oldY = snd b, pinned = True\<rparr>"
proof -
  define n where "n = length (points s)"
  define m where "m = transferMomentum s a b"
  define P where "P = pinEndpoints a b m"
  define I where "I = integrate P"
  define R where "R = relax len I"
  have ne: "points s \<noteq> []" using len2 by (cases "points s") simp_all
  have idx: "0 < n" "n - 1 < n" using len2 unfolding n_def by arith+
  have lm: "length m = n" by (simp add: m_def n_def length_transferMomentum)
  have lP: "length P = n" by (simp add: P_def lm length_pinEndpoints)
  have pm: "map pinned m = map pinned (points s)"
    by (simp add: m_def map_pinned_transferMomentum)
  have m0: "pinned (m ! 0)" and ml: "pinned (m ! (n - 1))"
    using pinned_nth_cong[OF pm] idx p0 pl by (simp_all add: n_def)
  have len2m: "2 \<le> length m" using len2 lm by (simp add: n_def)
  have P0: "P ! 0 = \<lparr>px = fst a, py = snd a, oldX = fst a, oldY = snd a, pinned = True\<rparr>"
    using pinEndpoints_ends(1)[OF len2m, of a b] m0 by (simp add: P_def pinPoint_record)
  have Pl: "P ! (n - 1) = \<lparr>px = fst b, py = snd b, oldX = fst b, oldY = snd b, pinned = True\<rparr>"
    using pinEndpoints_ends(2)[OF len2m, of a b] ml by (simp add: P_def pinPoint_record lm)
  have I0: "I ! 0 = P ! 0" and Il: "I ! (n - 1) = P ! (n - 1)"
    using integrate_ends[of P] by (simp_all add: I_def lP)
  have R0: "R ! 0 = I ! 0"
    unfolding R_def by (rule relax_pinned_nth) (simp only: I0 P0 rope_point.simps)
  have Rl: "R ! (n - 1) = I ! (n - 1)"
    unfolding R_def by (rule relax_pinned_nth) (simp only: Il Pl rope_point.simps)
  have upd: "updateRopePhysics s a b len = Some (s\<lparr>points := R, lastA := a, lastB := b\<rparr>)"
    using ne by (simp add: updateRopePhysics_def R_def I_def P_def m_def)
  have pR: "map pinned R = map pinned (points s)"
    by (simp add: R_def I_def P_def m_def map_pinned_relax map_pinned_integrate
        map_pinned_pinEndpoints map_pinned_transferMomentum)
  show ?thesis
    using upd pR R0 Rl I0 Il P0 Pl by (simp add: n_def)
qed

lemma stepSeq_endpoints:
  assumes "steps \<noteq> []"
    and "2 \<le> length (points s)"
    and "pinned (points s ! 0)"
    and "pinned (points s ! (length (points s) - 1))"
  shows "\<exists>s'. stepSeq s steps = Some s'
           \<and> map pinned (points s') = map pinned (points s)
           \<and> points s' ! 0
               = \<lparr>px = fst (fst (last steps)), py = snd (fst (last steps)),
                  oldX = fst (fst (last steps)), oldY = snd (fst (last steps)), pinned = True\<rparr>
           \<and> points s' ! (length (points s') - 1)
               = \<lparr>px = fst (fst (snd (last steps))), py = snd (fst (snd (last steps))),
                  oldX = fst (fst (snd (last steps))), oldY = snd (fst (snd (last steps))),
                  pinned = True\<rparr>"
  using assms
proof (induction steps arbitrary: s)
  case Nil
  then show ?case by simp
next
  case (Cons st rest)
  obtain a b len where st: "st = (a, b, len)" by (cases st) auto
  from updateRopePhysics_endpoints[OF Cons.prems(2,3,4), of a b len]
  obtain s1 where s1: "updateRopePhysics s a b len = Some s1"
    and p1: "map pinned (points s1) = map pinned (points s)"
    and e0: "points s1 ! 0 = \<lparr>px = fst a, py = snd a, oldX = fst a, oldY = snd a, pinned = True\<rparr>"
    and el: "points s1 ! (length (points s) - 1)
               = \<lparr>px = fst b, py = snd b, oldX = fst b, oldY = snd b, pinned = True\<rparr>"
    by blast
  have l1: "length (points s1) = length (points s)"
    using p1 by (rule length_pinned_eq)
  show ?case
  proof (cases "rest = []")
    case True
    then show ?thesis using s1 p1 e0 el l1 by (simp add: st)
  next
    case False
    have h2: "2 \<le> length (points s1)" using Cons.prems(2) l1 by simp
    have h3: "pinned (points s1 ! 0)" by (simp add: e0)
    have h4: "pinned (points s1 ! (length (points s1) - 1))"
      unfolding l1 by (simp only: el rope_point.simps)
    from Cons.IH[OF False h2 h3 h4] show ?thesis
      using s1 p1 False by (simp add: st)
  qed
qed

lemma rope_wf_createRopeState: "rope_wf (createRopeState a b len now)"
  by (simp add: rope_wf_def createRopeState_def createRopePoint_def ROPE_SEGMENTS_def Let_def)

lemma rope_wf_length: "rope_wf s \<Longrightarrow> length (points s) = 9"
  unfolding rope_wf_def ROPE_SEGMENTS_def
  by (drule arg_cong[where f = length]) simp

lemma rope_wf_ends: 
  assumes "rope_wf s" 
  shows "pinned (points s ! 0)" "pinned (points s ! 8)"
proof -
  have l: "length (points s) = 9" using assms by (rule rope_wf_length)
  have "map pinned (points s) ! 0 = True" "map pinned (points s) ! 8 = True"
    using assms unfolding rope_wf_def ROPE_SEGMENTS_def by simp_all
  then show "pinned (points s ! 0)" "pinned (points s ! 8)"
    using l by simp_all
qed

lemma rope_wf_updateRopePhysics:
  assumes "rope_wf s"
  shows "\<exists>s'. updateRopePhysics s a b len = Some s' \<and> rope_wf s'"
proof -
  have l: "length (points s) = 9" using assms by (rule rope_wf_length)
  then have ne: "points s \<noteq> []" by auto
  then obtain s' where s': "updateRopePhysics s a b len = Some s'"
    by (simp add: updateRopePhysics_def)
  from updateRopePhysics_pinned[OF s'] assms have "rope_wf s'"
    by (simp add: rope_wf_def)
  with s' show ?thesis by blast
qed

lemma rope_wf_iff:
  "rope_wf s \<longleftrightarrow> length (points s) = 9
     \<and> (\<forall>i<9. pinned (points s ! i) \<longleftrightarrow> (i = 0 \<or> i = 8))"
proof
  assume w: "rope_wf s"
  then have l: "length (points s) = 9" by (rule rope_wf_length)
  have "pinned (points s ! i) \<longleftrightarrow> (i = 0 \<or> i = 8)" if "i < 9" for i
  proof -
    have "map pinned (points s) ! i = map (\<lambda>i. i = 0 \<or> i = ROPE_SEGMENTS) [0..<ROPE_SEGMENTS + 1] ! i"
      using w by (simp add: rope_wf_def)
    then show ?thesis using that l by (simp add: ROPE_SEGMENTS_def)
  qed
  with l show "length (points s) = 9 \<and> (\<forall>i<9. pinned (points s ! i) \<longleftrightarrow> (i = 0 \<or> i = 8))"
    by blast
next
  assume r: "length (points s) = 9 \<and> (\<forall>i<9. pinned (points s ! i) \<longleftrightarrow> (i = 0 \<or> i = 8))"
  show "rope_wf s"
    unfolding rope_wf_def ROPE_SEGMENTS_def
    using r by (intro nth_equalityI) simp_all
qed

section \<open>The store\<close>

lemma list_all_snd_update:
  "P v \<Longrightarrow> list_all P (map snd al) \<Longrightarrow> list_all P (map snd (AList.update k v al))"
  by (induction al) auto

lemma list_all_snd_map_entry:
  "P v \<Longrightarrow> list_all P (map snd al) \<Longrightarrow> list_all P (map snd (AList.map_entry k (\<lambda>_. v) al))"
  by (induction al) auto

lemma keys_map_entry: "map fst (AList.map_entry k f al) = map fst al"
  by (induction al) auto

lemma update_other_key:
  "k \<noteq> key \<Longrightarrow> (k, v') \<in> set (AList.update key v al) \<longleftrightarrow> (k, v') \<in> set al"
  by (induction al) auto

lemma length_update:
  "length (AList.update k v al) = length al + (if map_of al k = None then 1 else 0)"
  by (induction al) auto

lemma store_wf_update:
  "store_wf store \<Longrightarrow> rope_wf v \<Longrightarrow> store_wf (AList.update k v store)"
  by (simp add: store_wf_def distinct_update list_all_snd_update)

lemma store_wf_map_entry:
  "store_wf store \<Longrightarrow> rope_wf v \<Longrightarrow> store_wf (AList.map_entry k (\<lambda>_. v) store)"
  by (simp add: store_wf_def keys_map_entry list_all_snd_map_entry)

lemma store_wf_evictStale: "store_wf store \<Longrightarrow> store_wf (evictStale now store)"
  by (simp add: store_wf_def evictStale_def distinct_map_filter list_all_iff)

lemma store_wf_lookup: "store_wf store \<Longrightarrow> map_of store k = Some s \<Longrightarrow> rope_wf s"
  by (auto simp add: store_wf_def list_all_iff dest!: map_of_SomeD)

lemma map_of_evictStale_fresh:
  assumes "map_of store k = Some s" and "lastSeen s = now"
  shows "map_of (evictStale now store) k = Some s"
  unfolding evictStale_def
  by (rule map_of_filter_in[OF assms(1)]) (simp add: assms(2))

lemma map_of_store3_key:
  assumes "lastSeen state = now"
  shows "map_of (if c then evictStale now (AList.update key state store)
                 else AList.update key state store) key = Some state"
proof -
  have "map_of (AList.update key state store) key = Some state"
    by (simp add: update_conv')
  then show ?thesis
    using assms by (simp add: map_of_evictStale_fresh)
qed

lemma map_of_map_entry_const:
  "map_of al k = Some v \<Longrightarrow> map_of (AList.map_entry k (\<lambda>_. w) al) k = Some w"
  by (induction al) auto

text \<open>The body of \<open>getRopePoints\<close> with gravity enabled, the lookup of the key resolved.\<close>

lemma getRopePoints_enabled:
  assumes en: "gravityEnabled g"
  shows "getRopePoints g lnk a b len tCreate now tRecreate =
     (let key = getRopeKey lnk a b;
          state = (priorState g key (createRopeState a b len tCreate))\<lparr>lastSeen := now\<rparr>;
          store2 = AList.update key state (ropePhysics g);
          sweep = (length store2 > 60 \<and> now - lastRopeCleanup g > 3000);
          store3 = (if sweep then evictStale now store2 else store2);
          cleanup = (if sweep then now else lastRopeCleanup g)
      in if \<bar>segmentLen state - len / 8\<bar> > 20
         then (RopePoints (points (createRopeState a b len tRecreate)),
               g\<lparr>ropePhysics := AList.update key (createRopeState a b len tRecreate) store3,
                 lastRopeCleanup := cleanup\<rparr>)
         else (case updateRopePhysics state a b len of
                 None \<Rightarrow> (RopeThrew, g\<lparr>ropePhysics := store3, lastRopeCleanup := cleanup\<rparr>)
               | Some state' \<Rightarrow>
                   (RopePoints (points state'),
                    g\<lparr>ropePhysics := AList.map_entry key (\<lambda>_. state') store3,
                      lastRopeCleanup := cleanup\<rparr>)))"
proof (cases "map_of (ropePhysics g) (getRopeKey lnk a b)")
  case None
  then have pr: "priorState g (getRopeKey lnk a b) (createRopeState a b len tCreate)
                  = createRopeState a b len tCreate"
    by (simp add: priorState_def)
  show ?thesis
    using en None
    by (simp add: getRopePoints_def Let_def update_conv' pr ROPE_SEGMENTS_def cong: option.case_cong)
next
  case (Some s)
  then have pr: "priorState g (getRopeKey lnk a b) (createRopeState a b len tCreate) = s"
    by (simp add: priorState_def)
  show ?thesis
    using en Some
    by (simp add: getRopePoints_def Let_def update_conv' pr ROPE_SEGMENTS_def cong: option.case_cong)
qed

lemma getRopePoints_enabled_eq:
  assumes "gravityEnabled g"
    and "key = getRopeKey lnk a b"
    and "state = (priorState g key (createRopeState a b len tCreate))\<lparr>lastSeen := now\<rparr>"
    and "store2 = AList.update key state (ropePhysics g)"
    and "store3 = (if length store2 > 60 \<and> now - lastRopeCleanup g > 3000
                   then evictStale now store2 else store2)"
    and "cleanup = (if length store2 > 60 \<and> now - lastRopeCleanup g > 3000
                    then now else lastRopeCleanup g)"
  shows "getRopePoints g lnk a b len tCreate now tRecreate =
     (if \<bar>segmentLen state - len / 8\<bar> > 20
      then (RopePoints (points (createRopeState a b len tRecreate)),
            g\<lparr>ropePhysics := AList.update key (createRopeState a b len tRecreate) store3,
              lastRopeCleanup := cleanup\<rparr>)
      else (case updateRopePhysics state a b len of
              None \<Rightarrow> (RopeThrew, g\<lparr>ropePhysics := store3, lastRopeCleanup := cleanup\<rparr>)
            | Some state' \<Rightarrow>
                (RopePoints (points state'),
                 g\<lparr>ropePhysics := AList.map_entry key (\<lambda>_. state') store3,
                   lastRopeCleanup := cleanup\<rparr>)))"
  unfolding assms(2-)
  using getRopePoints_enabled[OF assms(1), of lnk a b len tCreate now tRecreate]
  by (simp only: Let_def)

lemma store_wf_getRopePoints:
  assumes "store_wf (ropePhysics g)"
  shows "store_wf (ropePhysics (snd (getRopePoints g lnk a b len tCreate now tRecreate)))"
proof (cases "gravityEnabled g")
  case False
  then show ?thesis using assms by (simp add: getRopePoints_def)
next
  case True
  define key where "key = getRopeKey lnk a b"
  define state where
    "state = (priorState g key (createRopeState a b len tCreate))\<lparr>lastSeen := now\<rparr>"
  define store2 where "store2 = AList.update key state (ropePhysics g)"
  define store3 where
    "store3 = (if length store2 > 60 \<and> now - lastRopeCleanup g > 3000
               then evictStale now store2 else store2)"
  define cleanup where
    "cleanup = (if length store2 > 60 \<and> now - lastRopeCleanup g > 3000
                then now else lastRopeCleanup g)"
  have eq: "getRopePoints g lnk a b len tCreate now tRecreate =
     (if \<bar>segmentLen state - len / 8\<bar> > 20
      then (RopePoints (points (createRopeState a b len tRecreate)),
            g\<lparr>ropePhysics := AList.update key (createRopeState a b len tRecreate) store3,
              lastRopeCleanup := cleanup\<rparr>)
      else (case updateRopePhysics state a b len of
              None \<Rightarrow> (RopeThrew, g\<lparr>ropePhysics := store3, lastRopeCleanup := cleanup\<rparr>)
            | Some state' \<Rightarrow>
                (RopePoints (points state'),
                 g\<lparr>ropePhysics := AList.map_entry key (\<lambda>_. state') store3,
                   lastRopeCleanup := cleanup\<rparr>)))"
    unfolding cleanup_def store3_def store2_def state_def key_def
    using getRopePoints_enabled[OF True, of lnk a b len tCreate now tRecreate]
    by (simp only: Let_def)
  have "rope_wf (priorState g key (createRopeState a b len tCreate))"
    using assms
    by (auto simp add: priorState_def rope_wf_createRopeState split: option.splits
        dest: store_wf_lookup)
  then have wst: "rope_wf state" by (simp add: state_def rope_wf_def)
  have w2: "store_wf store2" unfolding store2_def using assms wst by (rule store_wf_update)
  have w3: "store_wf store3" unfolding store3_def using w2 by (simp add: store_wf_evictStale)
  show ?thesis
  proof (cases "\<bar>segmentLen state - len / 8\<bar> > 20")
    case r: True
    then show ?thesis
      using store_wf_update[OF w3 rope_wf_createRopeState] by (simp add: eq)
  next
    case r: False
    from rope_wf_updateRopePhysics[OF wst, of a b len]
    obtain s' where s': "updateRopePhysics state a b len = Some s'" and ws': "rope_wf s'"
      by blast
    show ?thesis
      using r s' store_wf_map_entry[OF w3 ws'] by (simp add: eq)
  qed
qed

lemma store_wf_toggleGravity:
  "store_wf (ropePhysics g) \<Longrightarrow> store_wf (ropePhysics (toggleGravity g))"
  by (simp add: toggleGravity_def Let_def store_wf_def)

lemma reachable_store_wf: "reachable g \<Longrightarrow> store_wf (ropePhysics g)"
proof (induction rule: reachable.induct)
  case init
  show ?case by (simp add: initialGlobals_def store_wf_def)
next
  case (request g lnk a b len tCreate now tRecreate)
  then show ?case by (simp add: store_wf_getRopePoints)
next
  case (toggle g)
  then show ?case by (simp add: store_wf_toggleGravity)
next
  case (config g e m ge u)
  then show ?case by simp
qed

section \<open>One relaxation step on the deviation bounds\<close>

lemma hypot_nonneg: "0 \<le> hypot u v"
  by (simp add: hypot_def)

lemma hypot_power2: "hypot u v = sqrt (u\<^sup>2 + v\<^sup>2)"
  by (simp add: hypot_def power2_eq_square)

lemma hypot_scale: "hypot (k * u) (k * v) = \<bar>k\<bar> * hypot u v"
proof -
  have "(k * u)\<^sup>2 + (k * v)\<^sup>2 = k\<^sup>2 * (u\<^sup>2 + v\<^sup>2)"
    by (simp add: power2_eq_square algebra_simps)
  then show ?thesis
    by (simp add: hypot_power2 real_sqrt_mult)
qed

lemma hypot_minus: "hypot (- u) (- v) = hypot u v"
  by (simp add: hypot_def)

lemma hypot_triangle: "hypot (u + a) (v + b) \<le> hypot u v + hypot a b"
  unfolding hypot_power2 by (rule real_sqrt_sum_squares_triangle_ineq)

lemma hypot_diff_le: "\<bar>hypot (u + a) (v + b) - hypot u v\<bar> \<le> hypot a b"
proof -
  have 1: "hypot (u + a) (v + b) \<le> hypot u v + hypot a b" by (rule hypot_triangle)
  have "hypot ((u + a) + (- a)) ((v + b) + (- b)) \<le> hypot (u + a) (v + b) + hypot (- a) (- b)"
    by (rule hypot_triangle)
  then have 2: "hypot u v \<le> hypot (u + a) (v + b) + hypot a b"
    by (simp add: hypot_minus)
  from 1 2 show ?thesis by linarith
qed

lemma abs_le_hypot: "\<bar>v\<bar> \<le> hypot u v"
  unfolding hypot_power2 by (rule real_sqrt_ge_abs2)

text \<open>The relaxed segment itself: its deviation from the rest length shrinks.\<close>

lemma hypot_relaxed:
  assumes d: "d = hypot dx dy" and pos: "0 < d" and L: "0 \<le> L" and k: "0 \<le> k" "k \<le> 8"
  shows "hypot (dx + k * (dx * ((L - d) / (8 * d)))) (dy + k * (dy * ((L - d) / (8 * d))))
           = d + k * (L - d) / 8"
proof -
  define f where "f = 1 + k * ((L - d) / (8 * d))"
  have f: "f = (d + k * (L - d) / 8) / d"
    using pos by (simp add: f_def field_simps)
  have "0 \<le> (8 - k) * d + k * L" using pos L k by simp
  moreover have "d + k * (L - d) / 8 = ((8 - k) * d + k * L) / 8"
    by (simp add: field_simps)
  ultimately have "0 \<le> d + k * (L - d) / 8" by simp
  then have fpos: "0 \<le> f" using pos by (simp add: f)
  have "hypot (dx + k * (dx * ((L - d) / (8 * d)))) (dy + k * (dy * ((L - d) / (8 * d))))
          = hypot (f * dx) (f * dy)"
    by (simp add: f_def algebra_simps)
  also have "\<dots> = f * d" using fpos by (simp add: hypot_scale d)
  also have "\<dots> = d + k * (L - d) / 8" using pos by (simp add: f)
  finally show ?thesis .
qed

lemma hypot_shift_size:
  assumes d: "d = hypot dx dy" and pos: "0 < d"
  shows "hypot (dx * ((L - d) / (8 * d))) (dy * ((L - d) / (8 * d))) = \<bar>L - d\<bar> / 8"
proof -
  have "hypot (dx * ((L - d) / (8 * d))) (dy * ((L - d) / (8 * d)))
          = hypot (((L - d) / (8 * d)) * dx) (((L - d) / (8 * d)) * dy)"
    by (simp add: mult.commute)
  also have "\<dots> = \<bar>(L - d) / (8 * d)\<bar> * d"
    unfolding hypot_scale d[symmetric] ..
  also have "\<bar>(L - d) / (8 * d)\<bar> = \<bar>L - d\<bar> / d / 8"
    using pos by (simp add: abs_divide)
  also have "\<bar>L - d\<bar> / d / 8 * d = \<bar>L - d\<bar> / 8"
    using pos by simp
  finally show ?thesis .
qed

lemma constrainPair_shift:
  "constrainPair L ps i =
     (if segLen ps i < 1 / 1000 then ps
      else ps[i := shiftPoint (- ((px (ps ! Suc i) - px (ps ! i)) * ((L - segLen ps i) / (8 * segLen ps i))))
                              (- ((py (ps ! Suc i) - py (ps ! i)) * ((L - segLen ps i) / (8 * segLen ps i))))
                              (ps ! i),
              Suc i := shiftPoint ((px (ps ! Suc i) - px (ps ! i)) * ((L - segLen ps i) / (8 * segLen ps i)))
                                  ((py (ps ! Suc i) - py (ps ! i)) * ((L - segLen ps i) / (8 * segLen ps i)))
                                  (ps ! Suc i)])"
  by (simp add: constrainPair_def segLen_def hypot_def shiftPoint_def Let_def ROPE_STIFFNESS_def)

lemma length_devE: "length (devE E i) = length E"
  by (simp add: devE_def Let_def)

lemma devE_nth:
  assumes "length E = 8" and "i < 8" and "j < 8"
  shows "devE E i ! j =
     (if j = i then (if i = 0 \<or> i = 7 then 7 / 8 else 3 / 4) * E ! i
      else if Suc j = i \<or> j = Suc i then E ! j + E ! i / 8
      else E ! j)"
  using assms by (auto simp add: devE_def Let_def nth_list_update)

lemma devE_sound:
  assumes pin: "map pinned ps = map (\<lambda>i. i = 0 \<or> i = 8) [0..<9]"
    and i: "i < 8" and L: "0 \<le> L"
    and len: "length E = 8"
    and dev: "\<forall>j<8. \<bar>segLen ps j - L\<bar> \<le> E ! j"
    and ok: "E ! i < L - 1 / 1000"
  shows "\<forall>j<8. \<bar>segLen (constrainPair L ps i) j - L\<bar> \<le> devE E i ! j"
    and "py (ps ! 4) - (if i = 3 \<or> i = 4 then E ! i / 8 else 0) \<le> py (constrainPair L ps i ! 4)"
proof -
  have l9: "length ps = 9"
    using arg_cong[OF pin, of length] by simp
  have pinned_iff: "pinned (ps ! k) \<longleftrightarrow> k = 0 \<or> k = 8" if "k < 9" for k
  proof -
    have "map pinned ps ! k = map (\<lambda>i. i = 0 \<or> i = 8) [0..<9] ! k" by (simp only: pin)
    then show ?thesis using that l9 by simp
  qed
  define d where "d = segLen ps i"
  define dx where "dx = px (ps ! Suc i) - px (ps ! i)"
  define dy where "dy = py (ps ! Suc i) - py (ps ! i)"
  define c where "c = (L - d) / (8 * d)"
  define m where "m = E ! i / 8"
  define q1 where "q1 = shiftPoint (- (dx * c)) (- (dy * c)) (ps ! i)"
  define q2 where "q2 = shiftPoint (dx * c) (dy * c) (ps ! Suc i)"
  define a1 :: real where "a1 = (if i = 0 then 0 else 1)"
  define a2 :: real where "a2 = (if i = 7 then 0 else 1)"
  have dh: "d = hypot dx dy" by (simp add: d_def segLen_def dx_def dy_def)
  have di: "\<bar>d - L\<bar> \<le> E ! i" using dev i by (simp add: d_def)
  then have dbig: "1 / 1000 < d" using ok by linarith
  then have dpos: "0 < d" by linarith
  have noskip: "\<not> segLen ps i < 1 / 1000" using dbig by (simp add: d_def)
  have ps': "constrainPair L ps i = ps[i := q1, Suc i := q2]"
    using noskip
    by (simp add: constrainPair_shift q1_def q2_def dx_def dy_def c_def d_def)
  have nth': "constrainPair L ps i ! k = (if k = Suc i then q2 else if k = i then q1 else ps ! k)"
    if "k < 9" for k
    using that l9 by (simp add: ps' nth_list_update)
  have p1: "pinned (ps ! i) \<longleftrightarrow> i = 0" using pinned_iff[of i] i by simp
  have p2: "pinned (ps ! Suc i) \<longleftrightarrow> i = 7" using pinned_iff[of "Suc i"] i by auto
  have q1x: "px q1 = px (ps ! i) - a1 * (dx * c)" and q1y: "py q1 = py (ps ! i) - a1 * (dy * c)"
    by (simp_all add: q1_def shiftPoint_def p1 a1_def)
  have q2x: "px q2 = px (ps ! Suc i) + a2 * (dx * c)"
    and q2y: "py q2 = py (ps ! Suc i) + a2 * (dy * c)"
    by (simp_all add: q2_def shiftPoint_def p2 a2_def)
  have sz: "hypot (dx * c) (dy * c) = \<bar>L - d\<bar> / 8"
    unfolding c_def by (rule hypot_shift_size[OF dh dpos])
  have szm: "hypot (dx * c) (dy * c) \<le> m"
    using di by (simp add: sz m_def abs_minus_commute)
  have m0: "0 \<le> m" using szm hypot_nonneg[of "dx * c" "dy * c"] by linarith

  have self: "\<bar>segLen (constrainPair L ps i) i - L\<bar>
                \<le> (if i = 0 \<or> i = 7 then 7 / 8 else 3 / 4) * E ! i"
  proof -
    have k: "0 \<le> a1 + a2" "a1 + a2 \<le> 8" by (simp_all add: a1_def a2_def)
    have "segLen (constrainPair L ps i) i
            = hypot (dx + (a1 + a2) * (dx * c)) (dy + (a1 + a2) * (dy * c))"
      using i by (simp add: segLen_def nth' q1x q1y q2x q2y dx_def dy_def algebra_simps)
    also have "\<dots> = d + (a1 + a2) * (L - d) / 8"
      unfolding c_def by (rule hypot_relaxed[OF dh dpos L k])
    finally have "segLen (constrainPair L ps i) i - L = (1 - (a1 + a2) / 8) * (d - L)"
      by (simp add: field_simps)
    moreover have "0 \<le> 1 - (a1 + a2) / 8" using k by simp
    ultimately have "\<bar>segLen (constrainPair L ps i) i - L\<bar> = (1 - (a1 + a2) / 8) * \<bar>d - L\<bar>"
      by (simp add: abs_mult)
    also have "\<dots> \<le> (1 - (a1 + a2) / 8) * E ! i"
      using di k by (intro mult_left_mono) simp_all
    also have "1 - (a1 + a2) / 8 = (if i = 0 \<or> i = 7 then 7 / 8 else 3 / 4)"
      by (simp add: a1_def a2_def)
    finally show ?thesis .
  qed

  have before: "\<bar>segLen (constrainPair L ps i) j - L\<bar> \<le> E ! j + m" if "Suc j = i" for j
  proof -
    have j: "j < 8" "j \<noteq> i" "j \<noteq> Suc i" "Suc j < 9" "j < 9" using that i by simp_all
    have inz: "i \<noteq> 0" using that by simp
    have "segLen (constrainPair L ps i) j
            = hypot ((px (ps ! Suc j) - px (ps ! j)) + (- (dx * c)))
                    ((py (ps ! Suc j) - py (ps ! j)) + (- (dy * c)))"
      using j inz that by (simp add: segLen_def nth' q1x q1y a1_def algebra_simps)
    then have "\<bar>segLen (constrainPair L ps i) j - segLen ps j\<bar> \<le> hypot (- (dx * c)) (- (dy * c))"
      unfolding segLen_def[of ps j] by (simp only: hypot_diff_le)
    then have "\<bar>segLen (constrainPair L ps i) j - segLen ps j\<bar> \<le> m"
      using szm by (simp add: hypot_minus)
    moreover have "\<bar>segLen ps j - L\<bar> \<le> E ! j" using dev j by simp
    ultimately show ?thesis by linarith
  qed

  have after: "\<bar>segLen (constrainPair L ps i) j - L\<bar> \<le> E ! j + m" if "j = Suc i" "j < 8" for j
  proof -
    have j: "j \<noteq> i" "Suc j \<noteq> i" "Suc j \<noteq> Suc i" "Suc j < 9" "j < 9" using that i by simp_all
    have in7: "i \<noteq> 7" using that by simp
    have "segLen (constrainPair L ps i) j
            = hypot ((px (ps ! Suc j) - px (ps ! j)) + (- (dx * c)))
                    ((py (ps ! Suc j) - py (ps ! j)) + (- (dy * c)))"
      using j in7 that by (simp add: segLen_def nth' q2x q2y a2_def algebra_simps)
    then have "\<bar>segLen (constrainPair L ps i) j - segLen ps j\<bar> \<le> hypot (- (dx * c)) (- (dy * c))"
      unfolding segLen_def[of ps j] by (simp only: hypot_diff_le)
    then have "\<bar>segLen (constrainPair L ps i) j - segLen ps j\<bar> \<le> m"
      using szm by (simp add: hypot_minus)
    moreover have "\<bar>segLen ps j - L\<bar> \<le> E ! j" using dev that by simp
    ultimately show ?thesis by linarith
  qed

  have other: "segLen (constrainPair L ps i) j = segLen ps j"
    if "j < 8" "j \<noteq> i" "Suc j \<noteq> i" "j \<noteq> Suc i" for j
    using that by (simp add: segLen_def nth')

  show "\<forall>j<8. \<bar>segLen (constrainPair L ps i) j - L\<bar> \<le> devE E i ! j"
  proof (intro allI impI)
    fix j :: nat assume j: "j < 8"
    consider "j = i" | "Suc j = i" | "j = Suc i" | "j \<noteq> i" "Suc j \<noteq> i" "j \<noteq> Suc i"
      by blast
    then show "\<bar>segLen (constrainPair L ps i) j - L\<bar> \<le> devE E i ! j"
    proof cases
      case 1
      then show ?thesis using self devE_nth[OF len i j] by simp
    next
      case 2
      then show ?thesis using before[OF 2] devE_nth[OF len i j] by (simp add: m_def)
    next
      case 3
      then show ?thesis using after[OF 3 j] devE_nth[OF len i j] by (simp add: m_def)
    next
      case 4
      then show ?thesis using other[OF j 4] dev j devE_nth[OF len i j] by simp
    qed
  qed

  have ymove: "\<bar>dy * c\<bar> \<le> m"
    using abs_le_hypot[of "dy * c" "dx * c"] szm by linarith
  show "py (ps ! 4) - (if i = 3 \<or> i = 4 then E ! i / 8 else 0) \<le> py (constrainPair L ps i ! 4)"
  proof -
    consider "i = 3" | "i = 4" | "i \<noteq> 3" "i \<noteq> 4" by blast
    then show ?thesis
    proof cases
      case 1
      then have e: "4 = Suc i" and n7: "i \<noteq> 7" by simp_all
      have "py (constrainPair L ps i ! Suc i) = py (ps ! Suc i) + dy * c"
        using i n7 by (simp add: nth' q2y a2_def)
      then have "py (constrainPair L ps i ! 4) = py (ps ! 4) + dy * c"
        unfolding e .
      then show ?thesis using ymove 1 by (simp add: m_def)
    next
      case 2
      then have n0: "i \<noteq> 0" by simp
      have "py (constrainPair L ps i ! i) = py (ps ! i) - dy * c"
        using i n0 by (simp add: nth' q1y a1_def)
      then have "py (constrainPair L ps i ! 4) = py (ps ! 4) - dy * c"
        unfolding 2 .
      then show ?thesis using ymove 2 by (simp add: m_def)
    next
      case 3
      then have "4 \<noteq> Suc i" "4 \<noteq> i" by simp_all
      then have "constrainPair L ps i ! 4 = ps ! 4"
        using nth'[of 4] by simp
      then show ?thesis using 3 by simp
    qed
  qed
qed

lemma devLoss_sound:
  assumes "map pinned ps = map (\<lambda>i. i = 0 \<or> i = 8) [0..<9]"
    and "0 \<le> L"
    and "length E = 8"
    and "\<forall>j<8. \<bar>segLen ps j - L\<bar> \<le> E ! j"
    and "devOK L E is"
  shows "py (ps ! 4) - devLoss E is \<le> py (foldl (constrainPair L) ps is ! 4)"
  using assms
proof (induction "is" arbitrary: ps E)
  case Nil
  then show ?case by simp
next
  case (Cons i "is")
  have i: "i < 8" and ok: "E ! i < L - 1 / 1000" and rest: "devOK L (devE E i) is"
    using Cons.prems(5) by simp_all
  note step = devE_sound[OF Cons.prems(1) i Cons.prems(2,3,4) ok]
  have pin': "map pinned (constrainPair L ps i) = map (\<lambda>i. i = 0 \<or> i = 8) [0..<9]"
    using Cons.prems(1) by (simp only: map_pinned_constrainPair)
  have len': "length (devE E i) = 8" using Cons.prems(3) by (simp add: length_devE)
  from Cons.IH[OF pin' Cons.prems(2) len' step(1) rest] step(2)
  show ?case by simp
qed

lemma relaxPass_nine:
  assumes "length ps = 9"
  shows "relaxPass L ps = foldl (constrainPair L) ps [0, 1, 2, 3, 4, 5, 6, 7]"
proof -
  have u: "[0..<8] = [0, 1, 2, 3, 4, 5, 6, 7]"
    by (simp add: upt_conv_Cons)
  show ?thesis
    using assms by (simp add: relaxPass_def u)
qed

lemma relax_nine:
  assumes "length ps = 9"
  shows "relax len ps = foldl (constrainPair (len / 8)) ps fourPasses"
proof -
  let ?p = "[0, 1, 2, 3, 4, 5, 6, 7] :: nat list"
  let ?f = "relaxPass (len / 8)"
  define q1 where "q1 = ?f ps"
  define q2 where "q2 = ?f q1"
  define q3 where "q3 = ?f q2"
  have l1: "length q1 = 9" using assms by (simp add: q1_def length_relaxPass)
  have l2: "length q2 = 9" using l1 by (simp add: q2_def length_relaxPass)
  have l3: "length q3 = 9" using l2 by (simp add: q3_def length_relaxPass)
  have e1: "q1 = foldl (constrainPair (len / 8)) ps ?p"
    unfolding q1_def by (rule relaxPass_nine[OF assms])
  have e2: "q2 = foldl (constrainPair (len / 8)) q1 ?p"
    unfolding q2_def by (rule relaxPass_nine[OF l1])
  have e3: "q3 = foldl (constrainPair (len / 8)) q2 ?p"
    unfolding q3_def by (rule relaxPass_nine[OF l2])
  have e4: "?f q3 = foldl (constrainPair (len / 8)) q3 ?p"
    by (rule relaxPass_nine[OF l3])
  have s: "fourPasses = ?p @ ?p @ ?p @ ?p" by (simp add: fourPasses_def)
  have "relax len ps = ?f q3"
    using assms
    by (simp add: relax_def Let_def ROPE_ITERATIONS_def numeral_eq_Suc q1_def q2_def q3_def)
  also have "\<dots> = foldl (constrainPair (len / 8)) q3 ?p"
    by (rule e4)
  also have "\<dots> = foldl (constrainPair (len / 8)) ps fourPasses"
    unfolding s foldl_append e3 e2 e1 ..
  finally show ?thesis .
qed

section \<open>The rope between (0, 0) and (100, 0)\<close>

lemma createRopeState_example:
  "points (createRopeState (0, 0) (100, 0) 100 t) =
     [\<lparr>px = 0, py = 0, oldX = 0, oldY = 0, pinned = True\<rparr>,
      \<lparr>px = 25 / 2, py = 105 / 16, oldX = 25 / 2, oldY = 105 / 16, pinned = False\<rparr>,
      \<lparr>px = 25, py = 45 / 4, oldX = 25, oldY = 45 / 4, pinned = False\<rparr>,
      \<lparr>px = 75 / 2, py = 225 / 16, oldX = 75 / 2, oldY = 225 / 16, pinned = False\<rparr>,
      \<lparr>px = 50, py = 15, oldX = 50, oldY = 15, pinned = False\<rparr>,
      \<lparr>px = 125 / 2, py = 225 / 16, oldX = 125 / 2, oldY = 225 / 16, pinned = False\<rparr>,
      \<lparr>px = 75, py = 45 / 4, oldX = 75, oldY = 45 / 4, pinned = False\<rparr>,
      \<lparr>px = 175 / 2, py = 105 / 16, oldX = 175 / 2, oldY = 105 / 16, pinned = False\<rparr>,
      \<lparr>px = 100, py = 0, oldX = 100, oldY = 0, pinned = True\<rparr>]"
proof -
  have u: "[0..<9] = [0, 1, 2, 3, 4, 5, 6, 7, 8]"
    by (simp add: upt_conv_Cons)
  show ?thesis
    by (simp add: createRopeState_def createRopePoint_def Let_def ROPE_SEGMENTS_def u)
qed

lemma created_example_shape:
  assumes "i < 9"
  shows "py (points (createRopeState (0, 0) (100, 0) 100 t) ! i)
           = min (100 * (15 / 100)) 60 * 4 * (real i / 8) * (1 - real i / 8)"
    and "py (points (createRopeState (0, 0) (100, 0) 100 t) ! i) \<le> 15"
proof -
  define u where "u = real i / 8"
  have nth: "points (createRopeState (0, 0) (100, 0) 100 t) ! i
               = createRopePoint (0, 0) (100, 0) 100 9 i"
    using assms by (simp add: createRopeState_def ROPE_SEGMENTS_def Let_def)
  have y: "py (createRopePoint (0, 0) (100, 0) 100 9 i) = 15 * 4 * u * (1 - u)"
    by (simp add: createRopePoint_def Let_def u_def)
  show "py (points (createRopeState (0, 0) (100, 0) 100 t) ! i)
           = min (100 * (15 / 100)) 60 * 4 * (real i / 8) * (1 - real i / 8)"
    by (simp add: nth y u_def)
  have "0 \<le> (2 * u - 1)\<^sup>2" by simp
  then have "4 * u * (1 - u) \<le> 1"
    by (simp add: power2_eq_square algebra_simps)
  then have "15 * (4 * u * (1 - u)) \<le> 15 * 1"
    by (intro mult_left_mono) simp_all
  then show "py (points (createRopeState (0, 0) (100, 0) 100 t) ! i) \<le> 15"
    by (simp add: nth y algebra_simps)
qed

lemma transferMomentum_still:
  "lastA s = a \<Longrightarrow> lastB s = b \<Longrightarrow> transferMomentum s a b = points s"
  by (simp add: transferMomentum_def Let_def hypot_def)

lemma verlet_example:
  assumes "points s = points (createRopeState (0, 0) (100, 0) 100 t)"
    and "lastA s = (0, 0)" and "lastB s = (100, 0)"
  shows "integrate (pinEndpoints (0, 0) (100, 0) (transferMomentum s (0, 0) (100, 0)))
           = verletExample"
  unfolding transferMomentum_still[OF assms(2,3)] assms(1) createRopeState_example
  by (simp add: integrate_def pinEndpoints_def Let_def pinPoint_def verletStep_def
      verletPoint_def ROPE_DAMPING_def ROPE_GRAVITY_def verletExample_def)

lemma verletExample_dev: "\<forall>j<8. \<bar>segLen verletExample j - 25 / 2\<bar> \<le> initialDeviation ! j"
proof -
  have b: "\<bar>sqrt x - 25 / 2\<bar> \<le> e" if "(25 / 2)\<^sup>2 \<le> x" "x \<le> (25 / 2 + e)\<^sup>2" "0 \<le> e"
    for x e :: real
  proof -
    have "25 / 2 \<le> sqrt x" using that(1) by (rule real_le_rsqrt)
    moreover have "sqrt x \<le> 25 / 2 + e" using that(2,3) by (intro real_le_lsqrt) simp_all
    ultimately show ?thesis by linarith
  qed
  have s: "segLen verletExample 0 = sqrt (1328329 / 6400)"
    "segLen verletExample 1 = sqrt (45625 / 256)"
    "segLen verletExample 2 = sqrt (42025 / 256)"
    "segLen verletExample 3 = sqrt (40225 / 256)"
    "segLen verletExample 4 = sqrt (40225 / 256)"
    "segLen verletExample 5 = sqrt (42025 / 256)"
    "segLen verletExample 6 = sqrt (45625 / 256)"
    "segLen verletExample 7 = sqrt (1328329 / 6400)"
    by (simp_all add: segLen_def hypot_def verletExample_def)
  have r: "\<bar>sqrt (1328329 / 6400) - 25 / 2\<bar> \<le> 1907 / 1000"
    "\<bar>sqrt (45625 / 256) - 25 / 2\<bar> \<le> 851 / 1000"
    "\<bar>sqrt (42025 / 256) - 25 / 2\<bar> \<le> 313 / 1000"
    "\<bar>sqrt (40225 / 256) - 25 / 2\<bar> \<le> 36 / 1000"
    by (rule b; simp add: power2_eq_square)+
  have e: "initialDeviation ! 0 = 1907 / 1000" "initialDeviation ! 1 = 851 / 1000" "initialDeviation ! 2 = 313 / 1000" "initialDeviation ! 3 = 36 / 1000"
    "initialDeviation ! 4 = 36 / 1000" "initialDeviation ! 5 = 313 / 1000" "initialDeviation ! 6 = 851 / 1000" "initialDeviation ! 7 = 1907 / 1000"
    by (simp_all add: initialDeviation_def)
  have "\<bar>segLen verletExample j - 25 / 2\<bar> \<le> initialDeviation ! j" if "j < 8" for j
  proof -
    from that consider "j = 0" | "j = 1" | "j = 2" | "j = 3" | "j = 4" | "j = 5" | "j = 6" | "j = 7"
      by linarith
    then show ?thesis
    proof cases
      case 1 show ?thesis unfolding 1 s e by (rule r)
    next
      case 2 show ?thesis unfolding 2 s e by (rule r)
    next
      case 3 show ?thesis unfolding 3 s e by (rule r)
    next
      case 4 show ?thesis unfolding 4 s e by (rule r)
    next
      case 5 show ?thesis unfolding 5 s e by (rule r)
    next
      case 6 show ?thesis unfolding 6 s e by (rule r)
    next
      case 7 show ?thesis unfolding 7 s e by (rule r)
    next
      case 8 show ?thesis unfolding 8 s e by (rule r)
    qed
  qed
  then show ?thesis by blast
qed

lemma midpoint_rises:
  assumes "points s = points (createRopeState (0, 0) (100, 0) 100 t)"
    and "lastA s = (0, 0)" and "lastB s = (100, 0)"
    and "updateRopePhysics s (0, 0) (100, 0) 100 = Some s'"
  shows "15 < py (points s' ! 4)"
proof -
  have v: "integrate (pinEndpoints (0, 0) (100, 0) (transferMomentum s (0, 0) (100, 0)))
             = verletExample"
    using assms(1,2,3) by (rule verlet_example)
  have l: "length verletExample = 9" by (simp add: verletExample_def)
  have p: "map pinned verletExample = map (\<lambda>i. i = 0 \<or> i = 8) [0..<9]"
    by (simp add: verletExample_def upt_conv_Cons)
  have ne: "points s \<noteq> []" using assms(1) by (simp add: createRopeState_example)
  have "points s' = relax 100 verletExample"
    using assms(4) ne by (auto simp add: updateRopePhysics_def v)
  also have "\<dots> = foldl (constrainPair (25 / 2)) verletExample fourPasses"
    using relax_nine[OF l, of 100] by simp
  finally have ps': "points s' = foldl (constrainPair (25 / 2)) verletExample fourPasses" .
  have ok: "devOK (25 / 2) initialDeviation fourPasses"
    by (simp add: initialDeviation_def fourPasses_def devE_def Let_def)
  have loss: "devLoss initialDeviation fourPasses < 6 / 10"
    by (simp add: initialDeviation_def fourPasses_def devE_def Let_def)
  have "py (verletExample ! 4) - devLoss initialDeviation fourPasses
          \<le> py (foldl (constrainPair (25 / 2)) verletExample fourPasses ! 4)"
    by (rule devLoss_sound[OF p _ _ verletExample_dev ok]) (simp_all add: initialDeviation_def)
  moreover have "py (verletExample ! 4) = 78 / 5" by (simp add: verletExample_def)
  ultimately show ?thesis using loss by (simp add: ps')
qed

section \<open>Endpoint pinning\<close>

text \<open>
  C2. For every rope state with at least two points whose two terminal points are pinned
  (every state that \<open>createRopeState\<close> builds is one), and every non-empty sequence of
  integration steps: all steps return, the number of points is unchanged, and after the
  last step the first and the last point have current and previous position exactly equal
  to the \<open>a\<close> and \<open>b\<close> of that step and are still pinned. The sequence is arbitrary, so
  this holds after each step; the pinning happens before the integration and the
  relaxation passes of the step, so neither of them moved the two points.
\<close>

theorem endpoint_pinning:
  assumes "steps \<noteq> []"
    and "2 \<le> length (points s)"
    and "pinned (points s ! 0)"
    and "pinned (points s ! (length (points s) - 1))"
  shows "\<exists>s'. stepSeq s steps = Some s'
           \<and> length (points s') = length (points s)
           \<and> points s' ! 0
               = \<lparr>px = fst (fst (last steps)), py = snd (fst (last steps)),
                  oldX = fst (fst (last steps)), oldY = snd (fst (last steps)), pinned = True\<rparr>
           \<and> points s' ! (length (points s) - 1)
               = \<lparr>px = fst (fst (snd (last steps))), py = snd (fst (snd (last steps))),
                  oldX = fst (fst (snd (last steps))), oldY = snd (fst (snd (last steps))),
                  pinned = True\<rparr>"
proof -
  from stepSeq_endpoints[OF assms]
  obtain s' where s': "stepSeq s steps = Some s'"
    and p: "map pinned (points s') = map pinned (points s)"
    and e0: "points s' ! 0
               = \<lparr>px = fst (fst (last steps)), py = snd (fst (last steps)),
                  oldX = fst (fst (last steps)), oldY = snd (fst (last steps)), pinned = True\<rparr>"
    and el: "points s' ! (length (points s') - 1)
               = \<lparr>px = fst (fst (snd (last steps))), py = snd (fst (snd (last steps))),
                  oldX = fst (fst (snd (last steps))), oldY = snd (fst (snd (last steps))),
                  pinned = True\<rparr>"
    by blast
  have l: "length (points s') = length (points s)" using p by (rule length_pinned_eq)
  show ?thesis using s' l e0 el by simp
qed

text \<open>The created rope, stepped at rest and then with both endpoints moved.\<close>

theorem endpoint_pinning_witness:
  "\<exists>s'. stepSeq (createRopeState (0, 0) (100, 0) 100 0)
            [((0, 0), (100, 0), 100), ((5, 3), (120, 40), 110)] = Some s'
        \<and> length (points s') = 9
        \<and> points s' ! 0 = \<lparr>px = 5, py = 3, oldX = 5, oldY = 3, pinned = True\<rparr>
        \<and> points s' ! 8 = \<lparr>px = 120, py = 40, oldX = 120, oldY = 40, pinned = True\<rparr>"
proof -
  let ?s = "createRopeState (0, 0) (100, 0) 100 0"
  let ?steps = "[((0, 0), (100, 0), 100), ((5, 3), (120, 40), 110)] :: (vec2 \<times> vec2 \<times> real) list"
  have l: "length (points ?s) = 9" 
    by (simp add: createRopeState_def ROPE_SEGMENTS_def Let_def)
  have h1: "?steps \<noteq> []" by simp
  have h2: "2 \<le> length (points ?s)" by (simp add: l)
  have h3: "pinned (points ?s ! 0)"
    by (simp add: createRopeState_def createRopePoint_def ROPE_SEGMENTS_def Let_def)
  have h4: "pinned (points ?s ! (length (points ?s) - 1))"
    by (simp add: createRopeState_def createRopePoint_def ROPE_SEGMENTS_def Let_def)
  show ?thesis
    using endpoint_pinning[OF h1 h2 h3 h4] by (simp add: l)
qed

section \<open>Gravity disabled\<close>

text \<open>
  C3. With the gravity flag disabled \<open>getRopePoints\<close> returns \<open>null\<close> and leaves the
  module state as it was, whatever the key and the store. The toggle that disables gravity
  empties the store; after toggling again the store is still empty, and a request then
  creates the state with \<open>createRopeState\<close> from the endpoints and length of that request
  alone (advanced by the one step of the request), whatever the store held before.
\<close>

theorem gravity_disabled_returns_null:
  "(\<not> gravityEnabled g \<longrightarrow>
      getRopePoints g lnk a b len tCreate now tRecreate = (RopeNull, g))
   \<and> (gravityEnabled g \<longrightarrow>
      \<not> gravityEnabled (toggleGravity g) \<and> ropePhysics (toggleGravity g) = []
      \<and> gravityEnabled (toggleGravity (toggleGravity g))
      \<and> ropePhysics (toggleGravity (toggleGravity g)) = []
      \<and> (\<exists>s'. updateRopePhysics ((createRopeState a b len tCreate)\<lparr>lastSeen := now\<rparr>) a b len
                  = Some s'
             \<and> getRopePoints (toggleGravity (toggleGravity g)) lnk a b len tCreate now tRecreate
                  = (RopePoints (points s'),
                     (toggleGravity (toggleGravity g))
                       \<lparr>ropePhysics := [(getRopeKey lnk a b, s')]\<rparr>)))"
proof -
  let ?fresh = "(createRopeState a b len tCreate)\<lparr>lastSeen := now\<rparr>"
  have "rope_wf ?fresh"
    using rope_wf_createRopeState[of a b len tCreate] by (simp add: rope_wf_def)
  from rope_wf_updateRopePhysics[OF this, of a b len]
  obtain s' where s': "updateRopePhysics ?fresh a b len = Some s'" by blast
  have seg: "segmentLen (createRopeState a b len tCreate) = len / 8"
    by (simp add: createRopeState_def ROPE_SEGMENTS_def Let_def)
  show ?thesis
    using s'
    by (simp add: getRopePoints_def toggleGravity_def Let_def seg ROPE_SEGMENTS_def)
qed

text \<open>The initial state (gravity disabled) and a store holding an older rope.\<close>

theorem gravity_disabled_returns_null_witness:
  "\<not> gravityEnabled initialGlobals
   \<and> getRopePoints initialGlobals (Some (exampleLink 1)) (0, 0) (100, 0) 100 16 16 16
       = (RopeNull, initialGlobals)
   \<and> gravityEnabled (exampleGlobals 100)
   \<and> ropePhysics (toggleGravity (exampleGlobals 100)) = []
   \<and> (\<exists>s'. updateRopePhysics ((createRopeState (0, 0) (100, 0) 100 16)\<lparr>lastSeen := 16\<rparr>)
               (0, 0) (100, 0) 100 = Some s'
          \<and> fst (getRopePoints (toggleGravity (toggleGravity (exampleGlobals 100)))
                   (Some (exampleLink 1)) (0, 0) (100, 0) 100 16 16 16) = RopePoints (points s'))"
proof -
  have h1: "\<not> gravityEnabled initialGlobals" by (simp add: initialGlobals_def)
  have h2: "gravityEnabled (exampleGlobals 100)" by (simp add: exampleGlobals_def)
  show ?thesis
    using h1 h2
      gravity_disabled_returns_null[of initialGlobals "Some (exampleLink 1)" "(0, 0)" "(100, 0)"
        100 16 16 16]
      gravity_disabled_returns_null[of "exampleGlobals 100" "Some (exampleLink 1)" "(0, 0)"
        "(100, 0)" 100 16 16 16]
    by auto
qed

section \<open>One integration step per request\<close>

text \<open>
  C4 as stated (every request with gravity enabled advances the state of its key by
  exactly one integration step, also a request that triggers the resize recreation) fails
  on a request that triggers it. The store holds link 1 created with length 300 (rest length 37.5); the
  request has length 100 (expected rest length 12.5). The returned points and the stored
  state are those of \<open>createRopeState\<close> for the new endpoints, all velocities zero. That
  state is neither one step after the state before the call (a step keeps
  \<open>segmentLen\<close>) nor one step after the created state (a step moves the midpoint).
\<close>

theorem resize_skips_integration_counterexample:
  "fst (getRopePoints (exampleGlobals 300) (Some (exampleLink 1)) (0, 0) (100, 0) 100 16 16 16)
     = RopePoints (points (createRopeState (0, 0) (100, 0) 100 16))
   \<and> map_of (ropePhysics (snd (getRopePoints (exampleGlobals 300) (Some (exampleLink 1))
                                  (0, 0) (100, 0) 100 16 16 16))) (LinkKey 1)
     = Some (createRopeState (0, 0) (100, 0) 100 16)
   \<and> updateRopePhysics ((createRopeState (0, 0) (300, 0) 300 0)\<lparr>lastSeen := 16\<rparr>)
        (0, 0) (100, 0) 100 \<noteq> Some (createRopeState (0, 0) (100, 0) 100 16)
   \<and> updateRopePhysics (createRopeState (0, 0) (100, 0) 100 16)
        (0, 0) (100, 0) 100 \<noteq> Some (createRopeState (0, 0) (100, 0) 100 16)"
proof -
  let ?old = "(createRopeState (0, 0) (300, 0) 300 0)\<lparr>lastSeen := 16\<rparr>"
  let ?fresh = "createRopeState (0, 0) (100, 0) 100 16"
  have k: "getRopeKey (Some (exampleLink 1)) (0, 0) (100, 0) = LinkKey 1"
    by (simp add: getRopeKey_def exampleLink_def)
  have segOld: "segmentLen (createRopeState (0, 0) (300, 0) 300 0) = 75 / 2"
    by (simp add: createRopeState_def ROPE_SEGMENTS_def Let_def)
  have segFresh: "segmentLen ?fresh = 25 / 2"
    by (simp add: createRopeState_def ROPE_SEGMENTS_def Let_def)
  have call: "getRopePoints (exampleGlobals 300) (Some (exampleLink 1)) (0, 0) (100, 0) 100 16 16 16
        = (RopePoints (points ?fresh),
           (exampleGlobals 300)\<lparr>ropePhysics := [(LinkKey 1, ?fresh)]\<rparr>)"
    by (simp add: getRopePoints_def k exampleGlobals_def initialGlobals_def Let_def segOld
        ROPE_SEGMENTS_def)
  have n1: "updateRopePhysics ?old (0, 0) (100, 0) 100 \<noteq> Some ?fresh"
  proof
    assume "updateRopePhysics ?old (0, 0) (100, 0) 100 = Some ?fresh"
    from updateRopePhysics_fields(1)[OF this] show False
      by (simp add: segOld segFresh)
  qed
  have n2: "updateRopePhysics ?fresh (0, 0) (100, 0) 100 \<noteq> Some ?fresh"
  proof
    assume a: "updateRopePhysics ?fresh (0, 0) (100, 0) 100 = Some ?fresh"
    have "15 < py (points ?fresh ! 4)"
      by (rule midpoint_rises[OF _ _ _ a, of 16]) (simp_all add: createRopeState_def Let_def)
    then show False by (simp add: createRopeState_example)
  qed
  show ?thesis using n1 n2 by (simp add: call)
qed

text \<open>
  C4, amended. For every request with gravity enabled, on a store whose states have the
  structure of a rope: let \<open>prior\<close> be the stored state of the key, or the state created
  for a key not seen before. If the rest length of \<open>prior\<close> differs from \<open>len / 8\<close> by
  more than 20, the request returns and stores the state \<open>createRopeState\<close> builds, with
  no integration step. Otherwise it returns and stores \<open>prior\<close>, with \<open>lastSeen\<close> set,
  advanced by exactly one call of \<open>updateRopePhysics\<close>.
\<close>

theorem getRopePoints_one_step_unless_resized:
  assumes "gravityEnabled g" and "store_wf (ropePhysics g)"
  shows "(let key = getRopeKey lnk a b;
              prior = priorState g key (createRopeState a b len tCreate);
              fresh = createRopeState a b len tRecreate;
              result = getRopePoints g lnk a b len tCreate now tRecreate
          in if \<bar>segmentLen prior - len / real ROPE_SEGMENTS\<bar> > 20
             then fst result = RopePoints (points fresh)
                  \<and> map_of (ropePhysics (snd result)) key = Some fresh
             else (\<exists>s'. updateRopePhysics (prior\<lparr>lastSeen := now\<rparr>) a b len = Some s'
                        \<and> fst result = RopePoints (points s')
                        \<and> map_of (ropePhysics (snd result)) key = Some s'))"
proof -
  define key where "key = getRopeKey lnk a b"
  define state where
    "state = (priorState g key (createRopeState a b len tCreate))\<lparr>lastSeen := now\<rparr>"
  define store2 where "store2 = AList.update key state (ropePhysics g)"
  define store3 where
    "store3 = (if length store2 > 60 \<and> now - lastRopeCleanup g > 3000
               then evictStale now store2 else store2)"
  define cleanup where
    "cleanup = (if length store2 > 60 \<and> now - lastRopeCleanup g > 3000
                then now else lastRopeCleanup g)"
  note eq = getRopePoints_enabled_eq[OF assms(1) key_def state_def store2_def store3_def
      cleanup_def, of tRecreate]
  have "rope_wf (priorState g key (createRopeState a b len tCreate))"
    using assms(2)
    by (auto simp add: priorState_def rope_wf_createRopeState split: option.splits
        dest: store_wf_lookup)
  then have wst: "rope_wf state" by (simp add: state_def rope_wf_def)
  from rope_wf_updateRopePhysics[OF wst, of a b len]
  obtain s' where s': "updateRopePhysics state a b len = Some s'" by blast
  have ls: "lastSeen state = now" by (simp add: state_def)
  have m3: "map_of store3 key = Some state"
    unfolding store3_def store2_def by (rule map_of_store3_key[OF ls])
  have seg: "segmentLen state = segmentLen (priorState g key (createRopeState a b len tCreate))"
    by (simp add: state_def)
  show ?thesis
    using s' map_of_map_entry_const[OF m3, of s']
    unfolding Let_def key_def[symmetric] state_def[symmetric]
    by (simp add: eq seg ROPE_SEGMENTS_def update_conv')
qed

text \<open>A request that keeps the length, and one that changes it from 100 to 400.\<close>

theorem getRopePoints_one_step_unless_resized_witness:
  "gravityEnabled (exampleGlobals 100) \<and> store_wf (ropePhysics (exampleGlobals 100))
   \<and> (\<exists>s'. updateRopePhysics ((createRopeState (0, 0) (100, 0) 100 0)\<lparr>lastSeen := 16\<rparr>)
               (0, 0) (100, 0) 100 = Some s'
          \<and> fst (getRopePoints (exampleGlobals 100) (Some (exampleLink 1)) (0, 0) (100, 0) 100
                   16 16 16) = RopePoints (points s'))
   \<and> fst (getRopePoints (exampleGlobals 100) (Some (exampleLink 1)) (0, 0) (400, 0) 400
             16 16 16) = RopePoints (points (createRopeState (0, 0) (400, 0) 400 16))"
proof -
  have h1: "gravityEnabled (exampleGlobals 100)" by (simp add: exampleGlobals_def)
  have h2: "store_wf (ropePhysics (exampleGlobals 100))"
    by (simp add: exampleGlobals_def store_wf_def rope_wf_createRopeState)
  have k: "getRopeKey (Some (exampleLink 1)) a b = LinkKey 1" for a b
    by (simp add: getRopeKey_def exampleLink_def)
  have p: "priorState (exampleGlobals 100) (LinkKey 1) fresh = createRopeState (0, 0) (100, 0) 100 0"
    for fresh
    by (simp add: priorState_def exampleGlobals_def)
  have seg: "segmentLen (createRopeState (0, 0) (100, 0) 100 0) = 25 / 2"
    by (simp add: createRopeState_def ROPE_SEGMENTS_def Let_def)
  show ?thesis
    using h1 h2
      getRopePoints_one_step_unless_resized[OF h1 h2, of "Some (exampleLink 1)" "(0, 0)"
        "(100, 0)" 100 16 16 16]
      getRopePoints_one_step_unless_resized[OF h1 h2, of "Some (exampleLink 1)" "(0, 0)"
        "(400, 0)" 400 16 16 16]
    by (auto simp add: Let_def k p seg ROPE_SEGMENTS_def)
qed

section \<open>Resize recreation\<close>

text \<open>
  C5. If the key is in the store and its rest length differs from \<open>len / 8\<close> by more than
  20, the request returns the points of a freshly created rope and stores that rope under
  the key: nine points at the fractions \<open>t = i / 8\<close> of the straight line from \<open>a\<close> to
  \<open>b\<close>, lowered by \<open>min (len * 0.15) 60 * 4 * t * (1 - t)\<close>, each with its old position
  equal to its position. Nothing of the old entry is in the result.
\<close>

theorem resize_recreates_fresh_rope:
  assumes "gravityEnabled g"
    and "map_of (ropePhysics g) (getRopeKey lnk a b) = Some s"
    and "\<bar>segmentLen s - len / real ROPE_SEGMENTS\<bar> > 20"
  shows "fst (getRopePoints g lnk a b len tCreate now tRecreate)
           = RopePoints (points (createRopeState a b len tRecreate))
       \<and> map_of (ropePhysics (snd (getRopePoints g lnk a b len tCreate now tRecreate)))
            (getRopeKey lnk a b) = Some (createRopeState a b len tRecreate)
       \<and> points (createRopeState a b len tRecreate)
           = map (\<lambda>i. \<lparr>px = fst a + (fst b - fst a) * (real i / 8),
                        py = snd a + (snd b - snd a) * (real i / 8)
                             + min (len * (15 / 100)) 60 * 4 * (real i / 8) * (1 - real i / 8),
                        oldX = fst a + (fst b - fst a) * (real i / 8),
                        oldY = snd a + (snd b - snd a) * (real i / 8)
                             + min (len * (15 / 100)) 60 * 4 * (real i / 8) * (1 - real i / 8),
                        pinned = (i = 0 \<or> i = 8)\<rparr>) [0..<9]"
proof -
  define key where "key = getRopeKey lnk a b"
  define state where
    "state = (priorState g key (createRopeState a b len tCreate))\<lparr>lastSeen := now\<rparr>"
  define store2 where "store2 = AList.update key state (ropePhysics g)"
  define store3 where
    "store3 = (if length store2 > 60 \<and> now - lastRopeCleanup g > 3000
               then evictStale now store2 else store2)"
  define cleanup where
    "cleanup = (if length store2 > 60 \<and> now - lastRopeCleanup g > 3000
                then now else lastRopeCleanup g)"
  note eq = getRopePoints_enabled_eq[OF assms(1) key_def state_def store2_def store3_def
      cleanup_def, of tRecreate]
  have seg: "segmentLen state = segmentLen s"
    using assms(2) by (simp add: state_def priorState_def key_def)
  have big: "\<bar>segmentLen state - len / 8\<bar> > 20"
    using assms(3) by (simp add: seg ROPE_SEGMENTS_def)
  have shape: "points (createRopeState a b len tRecreate)
           = map (\<lambda>i. \<lparr>px = fst a + (fst b - fst a) * (real i / 8),
                        py = snd a + (snd b - snd a) * (real i / 8)
                             + min (len * (15 / 100)) 60 * 4 * (real i / 8) * (1 - real i / 8),
                        oldX = fst a + (fst b - fst a) * (real i / 8),
                        oldY = snd a + (snd b - snd a) * (real i / 8)
                             + min (len * (15 / 100)) 60 * 4 * (real i / 8) * (1 - real i / 8),
                        pinned = (i = 0 \<or> i = 8)\<rparr>) [0..<9]"
    by (simp add: createRopeState_def createRopePoint_def ROPE_SEGMENTS_def Let_def)
  show ?thesis
    using big shape by (simp add: eq update_conv' key_def[symmetric])
qed

text \<open>Link 1, created with length 100, requested with length 400.\<close>

theorem resize_recreates_fresh_rope_witness:
  "gravityEnabled (exampleGlobals 100)
   \<and> map_of (ropePhysics (exampleGlobals 100)) (getRopeKey (Some (exampleLink 1)) (0, 0) (400, 0))
       = Some (createRopeState (0, 0) (100, 0) 100 0)
   \<and> \<bar>segmentLen (createRopeState (0, 0) (100, 0) 100 0) - 400 / real ROPE_SEGMENTS\<bar> > 20
   \<and> fst (getRopePoints (exampleGlobals 100) (Some (exampleLink 1)) (0, 0) (400, 0) 400 16 16 16)
       = RopePoints (points (createRopeState (0, 0) (400, 0) 400 16))
   \<and> points (createRopeState (0, 0) (400, 0) 400 16) ! 4
       = \<lparr>px = 200, py = 60, oldX = 200, oldY = 60, pinned = False\<rparr>"
proof -
  have h1: "gravityEnabled (exampleGlobals 100)"
    by (simp add: exampleGlobals_def)
  have h2: "map_of (ropePhysics (exampleGlobals 100))
              (getRopeKey (Some (exampleLink 1)) (0, 0) (400, 0))
            = Some (createRopeState (0, 0) (100, 0) 100 0)"
    by (simp add: exampleGlobals_def getRopeKey_def exampleLink_def)
  have h3: "\<bar>segmentLen (createRopeState (0, 0) (100, 0) 100 0) - 400 / real ROPE_SEGMENTS\<bar> > 20"
    by (simp add: createRopeState_def ROPE_SEGMENTS_def Let_def)
  show ?thesis
    using h1 h2 h3 resize_recreates_fresh_rope[OF h1 h2 h3, of 16 16 16]
    by simp
qed

section \<open>Eviction\<close>

text \<open>
  C6. With gravity enabled, when the store holds more than 60 entries once the requested
  key is in it and more than 3000 ms passed since the last sweep, an entry of another
  key whose \<open>lastSeen\<close> is more than 8000 ms before the clock reading of the request is
  not in the store after the request.
\<close>

theorem stale_entry_evicted:
  assumes "gravityEnabled g"
    and "distinct (map fst (ropePhysics g))"
    and "(k, s) \<in> set (ropePhysics g)"
    and "k \<noteq> getRopeKey lnk a b"
    and "now - lastSeen s > 8000"
    and "60 < length (ropePhysics g)
               + (if map_of (ropePhysics g) (getRopeKey lnk a b) = None then 1 else 0)"
    and "now - lastRopeCleanup g > 3000"
  shows "k \<notin> fst ` set (ropePhysics (snd (getRopePoints g lnk a b len tCreate now tRecreate)))"
proof -
  define key where "key = getRopeKey lnk a b"
  define state where
    "state = (priorState g key (createRopeState a b len tCreate))\<lparr>lastSeen := now\<rparr>"
  define store2 where "store2 = AList.update key state (ropePhysics g)"
  define store3 where
    "store3 = (if length store2 > 60 \<and> now - lastRopeCleanup g > 3000
               then evictStale now store2 else store2)"
  define cleanup where
    "cleanup = (if length store2 > 60 \<and> now - lastRopeCleanup g > 3000
                then now else lastRopeCleanup g)"
  note eq = getRopePoints_enabled_eq[OF assms(1) key_def state_def store2_def store3_def
      cleanup_def, of tRecreate]
  have kk: "k \<noteq> key" using assms(4) by (simp add: key_def)
  have "length store2 > 60"
    using assms(6) by (simp add: store2_def length_update key_def)
  then have s3: "store3 = evictStale now store2"
    using assms(7) by (simp add: store3_def)
  have "k \<notin> fst ` set store3"
  proof
    assume "k \<in> fst ` set store3"
    then obtain v where v: "(k, v) \<in> set store2" and fresh: "\<not> now - lastSeen v > 8000"
      by (auto simp add: s3 evictStale_def)
    from v kk have "(k, v) \<in> set (ropePhysics g)"
      by (simp add: store2_def update_other_key)
    with assms(2,3) have "v = s"
      by (meson eq_key_imp_eq_value)
    with fresh assms(5) show False by simp
  qed
  then have n3: "k \<notin> fst ` set store3" .
  have n1: "k \<notin> fst ` set (AList.update key v store3)" for v
    using kk n3 by (simp add: dom_update)
  have "fst ` set (AList.map_entry key f store3) = fst ` set store3" for f
    by (simp flip: set_map add: keys_map_entry)
  then have n2: "k \<notin> fst ` set (AList.map_entry key f store3)" for f
    using n3 by simp
  show ?thesis
    using n1 n2 n3 by (simp add: eq split: option.splits)
qed

text \<open>61 links seen at time 1000; a request for link 1 at time 9001 evicts link 60.\<close>

theorem stale_entry_evicted_witness:
  "gravityEnabled crowdedGlobals
   \<and> distinct (map fst (ropePhysics crowdedGlobals))
   \<and> (LinkKey 60, createRopeState (0, 0) (100, 0) 100 1000) \<in> set (ropePhysics crowdedGlobals)
   \<and> LinkKey 60 \<noteq> getRopeKey (Some (exampleLink 1)) (0, 0) (100, 0)
   \<and> 9001 - lastSeen (createRopeState (0, 0) (100, 0) 100 1000) > 8000
   \<and> 60 < length (ropePhysics crowdedGlobals)
            + (if map_of (ropePhysics crowdedGlobals)
                    (getRopeKey (Some (exampleLink 1)) (0, 0) (100, 0)) = None then 1 else 0)
   \<and> 9001 - lastRopeCleanup crowdedGlobals > 3000
   \<and> LinkKey 60 \<notin> fst ` set (ropePhysics (snd
         (getRopePoints crowdedGlobals (Some (exampleLink 1)) (0, 0) (100, 0) 100 9001 9001 9001)))"
proof -
  have h1: "gravityEnabled crowdedGlobals" by (simp add: crowdedGlobals_def)
  have h2: "distinct (map fst (ropePhysics crowdedGlobals))"
    by (simp add: crowdedGlobals_def distinct_map comp_def inj_on_def)
  have h3: "(LinkKey 60, createRopeState (0, 0) (100, 0) 100 1000) \<in> set (ropePhysics crowdedGlobals)"
    unfolding crowdedGlobals_def by (simp add: image_iff)
  have h4: "LinkKey 60 \<noteq> getRopeKey (Some (exampleLink 1)) (0, 0) (100, 0)"
    by (simp add: getRopeKey_def exampleLink_def)
  have h5: "9001 - lastSeen (createRopeState (0, 0) (100, 0) 100 1000) > 8000"
    by (simp add: createRopeState_def Let_def)
  have h6: "60 < length (ropePhysics crowdedGlobals)
            + (if map_of (ropePhysics crowdedGlobals)
                    (getRopeKey (Some (exampleLink 1)) (0, 0) (100, 0)) = None then 1 else 0)"
    by (simp add: crowdedGlobals_def)
  have h7: "9001 - lastRopeCleanup crowdedGlobals > 3000"
    by (simp add: crowdedGlobals_def initialGlobals_def)
  show ?thesis
    using h1 h2 h3 h4 h5 h6 h7 stale_entry_evicted[OF h1 h2 h3 h4 h5 h6 h7, of 100 9001 9001]
    by simp
qed

section \<open>The animate-link predicate\<close>

text \<open>
  C7. In mode \<open>selected\<close> with the selection \<open>{5}\<close>, a link from node 5 to node 9 is
  animated and a link from node 3 to node 9 is not; in mode \<open>selected\<close> an absent link is
  animated, whatever the selection; in the modes \<open>full\<close> and \<open>static\<close> every link is.
\<close>

theorem shouldAnimateLink_scenarios:
  "shouldAnimateLink (g\<lparr>animationMode := ''selected''\<rparr>) \<lparr>selected_nodes = Some [5]\<rparr>
     (Some \<lparr>link_id = i, origin_id = 5, target_id = 9\<rparr>)
   \<and> \<not> shouldAnimateLink (g\<lparr>animationMode := ''selected''\<rparr>) \<lparr>selected_nodes = Some [5]\<rparr>
     (Some \<lparr>link_id = i, origin_id = 3, target_id = 9\<rparr>)
   \<and> shouldAnimateLink (g\<lparr>animationMode := ''selected''\<rparr>) h None
   \<and> shouldAnimateLink (g\<lparr>animationMode := ''full''\<rparr>) h lnk
   \<and> shouldAnimateLink (g\<lparr>animationMode := ''static''\<rparr>) h lnk"
  by (simp add: shouldAnimateLink_def getSelectedNodeIds_def)

section \<open>Dispatch on endpoints that are not coordinate arrays\<close>

text \<open>
  C8 as stated (on endpoints that are not numeric arrays the dispatch does not throw,
  draws no effect and falls through to the host's routine) fails. With an effect selected
  and gravity disabled, the endpoint \<open>a = 5\<close> makes the dispatch return without any
  drawing, the host's routine included. The endpoint \<open>a = null\<close> makes
  it throw, at the indexing that computes the length. An array of strings passes the
  \<open>Array.isArray\<close> guard, and the effect is drawn.
\<close>

theorem malformed_endpoints_counterexample:
  "patchedRenderLink (initialGlobals\<lparr>currentEffect := Some 0\<rparr>) \<lparr>selected_nodes = None\<rparr> True
     (JNum 5) (JArr [JNum 0, JNum 0]) None RopeNull = Returned []
   \<and> patchedRenderLink initialGlobals \<lparr>selected_nodes = None\<rparr> True
     JNull (JArr [JNum 0, JNum 0]) None RopeNull = DispatchThrew
   \<and> patchedRenderLink (initialGlobals\<lparr>currentEffect := Some 0\<rparr>) \<lparr>selected_nodes = None\<rparr> True
     (JArr [JStr ''x'', JStr ''y'']) (JArr [JNum 0, JNum 0]) None RopeNull
       = Returned [EffectDraw 0]"
  by (simp add: patchedRenderLink_def initialGlobals_def nullish_def isArray_def
      shouldAnimateLink_def)

text \<open>
  C8, amended. For every draw request whose endpoints are neither \<open>null\<close> nor
  \<open>undefined\<close> and of which at least one is not an array: the dispatch never calls the
  draw routine of an effect; with gravity disabled it does not throw; and with gravity
  disabled and no effect selected it calls the host's original routine, after the GIF
  update if that is enabled, and nothing else.
\<close>

theorem malformed_endpoints_dispatch:
  assumes "\<not> nullish a" and "\<not> nullish b" and "\<not> (isArray a \<and> isArray b)"
  shows "(\<forall>acts e. patchedRenderLink g h ctx a b lnk r = Returned acts \<longrightarrow> EffectDraw e \<notin> set acts)
       \<and> (\<not> gravityEnabled g \<longrightarrow> patchedRenderLink g h ctx a b lnk r \<noteq> DispatchThrew)
       \<and> (\<not> gravityEnabled g \<and> currentEffect g = None \<longrightarrow>
            patchedRenderLink g h ctx a b lnk r
              = Returned ((if gifEnabled g \<and> gifUrl g \<noteq> [] \<and> shouldAnimateLink g h lnk
                           then [GifUpdate] else []) @ [OriginalRenderLink]))"
  using assms
  by (auto simp add: patchedRenderLink_def Let_def split: rope_result.splits option.splits
      if_splits)

text \<open>The endpoint \<open>a = 5\<close> in the initial state.\<close>

theorem malformed_endpoints_dispatch_witness:
  "\<not> nullish (JNum 5) \<and> \<not> nullish (JArr [JNum 0, JNum 0])
   \<and> \<not> (isArray (JNum 5) \<and> isArray (JArr [JNum 0, JNum 0]))
   \<and> \<not> gravityEnabled initialGlobals \<and> currentEffect initialGlobals = None
   \<and> patchedRenderLink initialGlobals \<lparr>selected_nodes = None\<rparr> True
        (JNum 5) (JArr [JNum 0, JNum 0]) None RopeNull = Returned [OriginalRenderLink]"
proof -
  have h1: "\<not> nullish (JNum 5)" by (simp add: nullish_def)
  have h2: "\<not> nullish (JArr [JNum 0, JNum 0])" by (simp add: nullish_def)
  have h3: "\<not> (isArray (JNum 5) \<and> isArray (JArr [JNum 0, JNum 0]))" by (simp add: isArray_def)
  have h4: "\<not> gravityEnabled initialGlobals \<and> currentEffect initialGlobals = None"
    by (simp add: initialGlobals_def)
  show ?thesis
    using h1 h2 h3 h4
      malformed_endpoints_dispatch[OF h1 h2 h3, of initialGlobals "\<lparr>selected_nodes = None\<rparr>"
        True None RopeNull]
    by (simp add: initialGlobals_def)
qed

section \<open>The example scenario\<close>

text \<open>
  C9. With \<open>a = (0, 0)\<close>, \<open>b = (100, 0)\<close>, length 100, gravity enabled and a key that is not
  in the store: \<open>createRopeState\<close> builds nine points with \<open>y = 15 * 4 * t * (1 - t)\<close>
  at \<open>t = i / 8\<close>, where \<open>15 = min (100 * 0.15) 60\<close>; no point is lower than the
  midpoint, whose \<open>y\<close> is 15. The request returns the points of that state after one
  integration step: still nine points, the midpoint's \<open>y\<close> strictly greater than 15, the
  first point exactly \<open>(0, 0)\<close> and the last exactly \<open>(100, 0)\<close>.
\<close>

theorem fresh_rope_example:
  assumes "gravityEnabled g"
    and "map_of (ropePhysics g) (getRopeKey lnk (0, 0) (100, 0)) = None"
  shows "length (points (createRopeState (0, 0) (100, 0) 100 tCreate)) = 9
       \<and> (\<forall>i<9. py (points (createRopeState (0, 0) (100, 0) 100 tCreate) ! i)
                    = min (100 * (15 / 100)) 60 * 4 * (real i / 8) * (1 - real i / 8)
                \<and> py (points (createRopeState (0, 0) (100, 0) 100 tCreate) ! i) \<le> 15)
       \<and> py (points (createRopeState (0, 0) (100, 0) 100 tCreate) ! 4) = 15
       \<and> (\<exists>s'. updateRopePhysics ((createRopeState (0, 0) (100, 0) 100 tCreate)\<lparr>lastSeen := now\<rparr>)
                   (0, 0) (100, 0) 100 = Some s'
              \<and> fst (getRopePoints g lnk (0, 0) (100, 0) 100 tCreate now tRecreate)
                   = RopePoints (points s')
              \<and> length (points s') = 9
              \<and> py (points (createRopeState (0, 0) (100, 0) 100 tCreate) ! 4) < py (points s' ! 4)
              \<and> points s' ! 0 = \<lparr>px = 0, py = 0, oldX = 0, oldY = 0, pinned = True\<rparr>
              \<and> points s' ! 8 = \<lparr>px = 100, py = 0, oldX = 100, oldY = 0, pinned = True\<rparr>)"
proof -
  let ?c = "createRopeState (0, 0) (100, 0) 100 tCreate"
  define key where "key = getRopeKey lnk (0, 0) (100, 0)"
  define state where "state = (priorState g key ?c)\<lparr>lastSeen := now\<rparr>"
  define store2 where "store2 = AList.update key state (ropePhysics g)"
  define store3 where
    "store3 = (if length store2 > 60 \<and> now - lastRopeCleanup g > 3000
               then evictStale now store2 else store2)"
  define cleanup where
    "cleanup = (if length store2 > 60 \<and> now - lastRopeCleanup g > 3000
                then now else lastRopeCleanup g)"
  note eq = getRopePoints_enabled_eq[OF assms(1) key_def state_def store2_def store3_def
      cleanup_def, of tRecreate]
  have st: "state = ?c\<lparr>lastSeen := now\<rparr>"
    using assms(2) by (simp add: state_def priorState_def key_def)
  have l9: "length (points ?c) = 9" by (simp add: createRopeState_example)
  have mid: "py (points ?c ! 4) = 15" by (simp add: createRopeState_example)
  have seg: "segmentLen state = 100 / 8"
    by (simp add: st createRopeState_def ROPE_SEGMENTS_def Let_def)
  have h2: "2 \<le> length (points state)" by (simp add: st l9)
  have h3: "pinned (points state ! 0)" by (simp add: st createRopeState_example)
  have h4: "pinned (points state ! (length (points state) - 1))"
    by (simp add: st createRopeState_example)
  from updateRopePhysics_endpoints[OF h2 h3 h4, of "(0, 0)" "(100, 0)" 100]
  obtain s' where s': "updateRopePhysics state (0, 0) (100, 0) 100 = Some s'"
    and p: "map pinned (points s') = map pinned (points state)"
    and e0: "points s' ! 0 = \<lparr>px = 0, py = 0, oldX = 0, oldY = 0, pinned = True\<rparr>"
    and e8: "points s' ! (length (points state) - 1)
               = \<lparr>px = 100, py = 0, oldX = 100, oldY = 0, pinned = True\<rparr>"
    by auto
  have l': "length (points s') = 9"
    using length_pinned_eq[OF p] by (simp add: st l9)
  have e8': "points s' ! 8 = \<lparr>px = 100, py = 0, oldX = 100, oldY = 0, pinned = True\<rparr>"
    using e8 by (simp add: st l9)
  have rise: "15 < py (points s' ! 4)"
    by (rule midpoint_rises[OF _ _ _ s', of tCreate])
       (simp_all add: st createRopeState_def Let_def)
  have res: "fst (getRopePoints g lnk (0, 0) (100, 0) 100 tCreate now tRecreate)
               = RopePoints (points s')"
    using s' by (simp add: eq seg)
  have shape: "\<forall>i<9. py (points ?c ! i)
                    = min (100 * (15 / 100)) 60 * 4 * (real i / 8) * (1 - real i / 8)
                \<and> py (points ?c ! i) \<le> 15"
    using created_example_shape by blast
  show ?thesis
    using l9 shape mid s' res l' rise e0 e8' unfolding st by auto
qed

text \<open>The first request after gravity was switched on.\<close>

theorem fresh_rope_example_witness:
  "gravityEnabled (toggleGravity initialGlobals)
   \<and> map_of (ropePhysics (toggleGravity initialGlobals))
        (getRopeKey (Some (exampleLink 1)) (0, 0) (100, 0)) = None
   \<and> (\<exists>ps. fst (getRopePoints (toggleGravity initialGlobals) (Some (exampleLink 1))
                   (0, 0) (100, 0) 100 16 16 16) = RopePoints ps
          \<and> length ps = 9 \<and> 15 < py (ps ! 4)
          \<and> ps ! 0 = \<lparr>px = 0, py = 0, oldX = 0, oldY = 0, pinned = True\<rparr>
          \<and> ps ! 8 = \<lparr>px = 100, py = 0, oldX = 100, oldY = 0, pinned = True\<rparr>)"
proof -
  have h1: "gravityEnabled (toggleGravity initialGlobals)"
    by (simp add: toggleGravity_def initialGlobals_def)
  have h2: "map_of (ropePhysics (toggleGravity initialGlobals))
              (getRopeKey (Some (exampleLink 1)) (0, 0) (100, 0)) = None"
    by (simp add: toggleGravity_def initialGlobals_def)
  show ?thesis
    using h1 h2 fresh_rope_example[OF h1 h2, of 16 16 16] by auto
qed

section \<open>The structure of every stored rope\<close>

text \<open>
  C10. A rope state has the rope structure when it has exactly nine points of which
  exactly the first and the last are pinned. \<open>createRopeState\<close> builds such a state,
  \<open>updateRopePhysics\<close> returns on such a state and its result is such a state, and every
  state in the store of a reachable module state is such a state.
\<close>

theorem rope_structure_invariant:
  "(rope_wf s \<longleftrightarrow> length (points s) = 9
       \<and> (\<forall>i<9. pinned (points s ! i) \<longleftrightarrow> (i = 0 \<or> i = 8)))
   \<and> rope_wf (createRopeState a b len now)
   \<and> (rope_wf s \<longrightarrow> (\<exists>s'. updateRopePhysics s a b len = Some s' \<and> rope_wf s'))
   \<and> (reachable g \<longrightarrow> list_all rope_wf (map snd (ropePhysics g)))"
  using rope_wf_iff[of s] rope_wf_createRopeState[of a b len now]
    rope_wf_updateRopePhysics[of s a b len] reachable_store_wf[of g]
  by (simp add: store_wf_def)

text \<open>The store after gravity was switched on and one request was made.\<close>

theorem rope_structure_invariant_witness:
  "rope_wf (createRopeState (0, 0) (100, 0) 100 0)
   \<and> (\<exists>s'. updateRopePhysics (createRopeState (0, 0) (100, 0) 100 0) (0, 0) (100, 0) 100 = Some s'
          \<and> rope_wf s')
   \<and> reachable (snd (getRopePoints (toggleGravity initialGlobals) None (0, 0) (100, 0) 100 0 0 0))
   \<and> list_all rope_wf (map snd (ropePhysics
        (snd (getRopePoints (toggleGravity initialGlobals) None (0, 0) (100, 0) 100 0 0 0))))"
proof -
  let ?g = "snd (getRopePoints (toggleGravity initialGlobals) None (0, 0) (100, 0) 100 0 0 0)"
  let ?s = "createRopeState (0, 0) (100, 0) 100 0"
  have r: "reachable ?g"
    by (intro reachable.request reachable.toggle reachable.init)
  show ?thesis
    using r rope_structure_invariant[of ?s "(0, 0)" "(100, 0)" 100 0 ?g] by blast
qed

end
